theory Spec2Isabelle
  imports Main "HOL-Library.Word" "HOL-Library.Multiset"
begin

unbundle bit_operations_syntax

section \<open>crunch: the command line texture packer\<close>

text \<open>
  A shallow embedding of \<^verbatim>\<open>crunch/main.cpp\<close> and \<^verbatim>\<open>crunch/hash.cpp\<close>.
  The module-level variables of \<^verbatim>\<open>main.cpp\<close> are a record that every call of
  \<^verbatim>\<open>crunch_main\<close> receives and returns; the file system is a map from paths to nodes;
  \<^verbatim>\<open>exit\<close>, \<^verbatim>\<open>return\<close> and an uncaught exception are values of the type \<open>outcome\<close>.
  \<^verbatim>\<open>size_t\<close> is 64 bits wide. Paths are POSIX paths (the separator is \<^verbatim>\<open>/\<close>).
  What is printed on \<^verbatim>\<open>cout\<close> is not modelled; what is printed on \<^verbatim>\<open>cerr\<close> is the
  \<open>failure\<close> an outcome carries.
\<close>

type_synonym size_t = "64 word"

subsection \<open>Strings\<close>

definition NUL :: char where
  "NUL = CHR 0x00"

definition endl :: string where
  "endl = [CHR 0x0A]"

definition starts_with :: "string \<Rightarrow> string \<Rightarrow> bool" where
  \<comment> \<open>\<^verbatim>\<open>arg.find(pre) == 0\<close>\<close>
  "starts_with arg pre = (take (length pre) arg = pre)"

definition substr :: "string \<Rightarrow> nat \<Rightarrow> string" where
  \<comment> \<open>\<^verbatim>\<open>arg.substr(n)\<close>, used only where \<open>n \<le> length arg\<close>\<close>
  "substr arg n = drop n arg"

fun find_sub :: "string \<Rightarrow> string \<Rightarrow> nat option" where
  \<comment> \<open>\<^verbatim>\<open>s.find(sub)\<close>: the first position of \<open>sub\<close> in \<open>s\<close>, \<open>None\<close> for \<^verbatim>\<open>npos\<close>\<close>
  "find_sub [] sub = (if sub = [] then Some 0 else None)"
| "find_sub (c # cs) sub =
     (if starts_with (c # cs) sub then Some 0 else map_option Suc (find_sub cs sub))"

definition erase :: "string \<Rightarrow> nat \<Rightarrow> nat \<Rightarrow> string" where
  \<comment> \<open>\<^verbatim>\<open>s.erase(pos, len)\<close> for \<open>pos \<le> length s\<close>\<close>
  "erase s pos len = take pos s @ drop (pos + len) s"

definition digit_char :: "nat \<Rightarrow> char" where
  "digit_char d = ''0123456789'' ! d"

function to_string :: "nat \<Rightarrow> string" where
  \<comment> \<open>\<^verbatim>\<open>std::to_string\<close> on a value that is not negative\<close>
  "to_string n =
     (if n < 10 then [digit_char n] else to_string (n div 10) @ [digit_char (n mod 10)])"
  by pat_completeness auto
termination
  by (relation "measure id") auto

declare to_string.simps [simp del]

definition is_digit :: "char \<Rightarrow> bool" where
  "is_digit c = (c \<in> set ''0123456789'')"

definition digit_val :: "char \<Rightarrow> nat" where
  "digit_val c = of_char c - 48"

definition dec_value :: "string \<Rightarrow> nat" where
  "dec_value ds = foldl (\<lambda>a c. 10 * a + digit_val c) 0 ds"

fun split_on :: "char \<Rightarrow> string \<Rightarrow> string list" where
  \<comment> \<open>the \<^verbatim>\<open>getline(ss, inputStr, ',')\<close> loop of \<^verbatim>\<open>crunch_main\<close>: one piece more than
      there are delimiters\<close>
  "split_on d [] = [[]]"
| "split_on d (c # cs) =
     (if c = d then [] # split_on d cs
      else (case split_on d cs of [] \<Rightarrow> [[c]] | w # ws \<Rightarrow> (c # w) # ws))"

subsection \<open>Paths (\<^verbatim>\<open>std::filesystem::path\<close>, POSIX)\<close>

definition filename :: "string \<Rightarrow> string" where
  "filename p = rev (takeWhile (\<lambda>c. c \<noteq> CHR ''/'') (rev p))"

definition parent_path :: "string \<Rightarrow> string" where
  "parent_path p =
     (if CHR ''/'' \<notin> set p then []
      else let d = rev (dropWhile (\<lambda>c. c = CHR ''/'') (dropWhile (\<lambda>c. c \<noteq> CHR ''/'') (rev p)))
           in if d = [] then ''/'' else d)"

definition dot_suffix :: "string \<Rightarrow> string" where
  \<comment> \<open>the characters after the last period of a file name\<close>
  "dot_suffix f = rev (takeWhile (\<lambda>c. c \<noteq> CHR ''.'') (rev f))"

definition has_extension :: "string \<Rightarrow> bool" where
  \<comment> \<open>a file name has an extension when it has a period that is not its first character,
      and it is neither \<^verbatim>\<open>.\<close> nor \<^verbatim>\<open>..\<close>\<close>
  "has_extension f =
     (f \<noteq> ''.'' \<and> f \<noteq> ''..'' \<and> CHR ''.'' \<in> set f \<and> Suc (length (dot_suffix f)) < length f)"

definition extension :: "string \<Rightarrow> string" where
  "extension p =
     (let f = filename p in if has_extension f then CHR ''.'' # dot_suffix f else [])"

definition stem :: "string \<Rightarrow> string" where
  "stem f = (if has_extension f then take (length f - Suc (length (dot_suffix f))) f else f)"

definition path_append :: "string \<Rightarrow> string \<Rightarrow> string" where
  \<comment> \<open>\<^verbatim>\<open>a / b\<close>\<close>
  "path_append a b =
     (if b \<noteq> [] \<and> hd b = CHR ''/'' then b
      else if a = [] then b
      else if last a = CHR ''/'' then a @ b
      else a @ ''/'' @ b)"

subsection \<open>The file system\<close>

text \<open>
  A regular file has a flag (whether this process may open it for reading) and its bytes.
  A directory has the paths that \<^verbatim>\<open>recursive_directory_iterator\<close> yields for it, in the
  order of the host.
\<close>

datatype fsnode = RegFile bool string | Directory "string list"

type_synonym filesystem = "string \<Rightarrow> fsnode option"

definition is_directory :: "filesystem \<Rightarrow> string \<Rightarrow> bool" where
  "is_directory fs p = (case fs p of Some (Directory es) \<Rightarrow> True | _ \<Rightarrow> False)"

definition is_regular_file :: "filesystem \<Rightarrow> string \<Rightarrow> bool" where
  "is_regular_file fs p = (case fs p of Some (RegFile r bs) \<Rightarrow> True | _ \<Rightarrow> False)"

definition directory_entries :: "filesystem \<Rightarrow> string \<Rightarrow> string list" where
  "directory_entries fs p = (case fs p of Some (Directory es) \<Rightarrow> es | _ \<Rightarrow> [])"

definition can_open :: "filesystem \<Rightarrow> string \<Rightarrow> bool" where
  \<comment> \<open>an \<^verbatim>\<open>ifstream\<close> on the path opens: the path names a regular file that this
      process may read (opening a directory is taken to fail)\<close>
  "can_open fs p = (case fs p of Some (RegFile r bs) \<Rightarrow> r | _ \<Rightarrow> False)"

definition file_bytes :: "filesystem \<Rightarrow> string \<Rightarrow> string" where
  "file_bytes fs p = (case fs p of Some (RegFile r bs) \<Rightarrow> bs | _ \<Rightarrow> [])"

definition RemoveFile :: "filesystem \<Rightarrow> string \<Rightarrow> filesystem" where
  \<comment> \<open>\<^verbatim>\<open>remove(file.data())\<close>, its result ignored: a regular file is unlinked, an empty
      directory is removed, anything else stays\<close>
  "RemoveFile fs file =
     (case fs file of
        Some (RegFile r bs) \<Rightarrow> fs(file := None)
      | Some (Directory es) \<Rightarrow> (if es = [] then fs(file := None) else fs)
      | None \<Rightarrow> fs)"

definition write_file :: "filesystem \<Rightarrow> string \<Rightarrow> string \<Rightarrow> filesystem" where
  \<comment> \<open>an \<^verbatim>\<open>ofstream\<close> on the path, written and closed: the file is created or truncated.
      The output directory is taken to exist and to be writable.\<close>
  "write_file fs file bytes = fs(file \<mapsto> RegFile True bytes)"

subsection \<open>Input streams\<close>

text \<open>
  The state of an \<^verbatim>\<open>ifstream\<close>: whether a file is open, its bytes, the read position,
  \<^verbatim>\<open>failbit\<close>, \<^verbatim>\<open>eofbit\<close> and \<^verbatim>\<open>gcount()\<close>. Opening with \<^verbatim>\<open>ios::ate\<close> puts the position
  at the end of the file. An unformatted input function on a stream that is not
  \<^verbatim>\<open>good()\<close> sets \<^verbatim>\<open>failbit\<close> and extracts nothing.
\<close>

record ifstream =
  st_open :: bool
  st_data :: string
  st_pos :: nat
  st_fail :: bool
  st_eof :: bool
  st_gcount :: nat

definition ifstream_open :: "filesystem \<Rightarrow> string \<Rightarrow> bool \<Rightarrow> ifstream" where
  "ifstream_open fs file ate =
     (if can_open fs file
      then \<lparr>st_open = True, st_data = file_bytes fs file,
            st_pos = (if ate then length (file_bytes fs file) else 0),
            st_fail = False, st_eof = False, st_gcount = 0\<rparr>
      else \<lparr>st_open = False, st_data = [], st_pos = 0,
            st_fail = True, st_eof = False, st_gcount = 0\<rparr>)"

definition good :: "ifstream \<Rightarrow> bool" where
  "good s = (\<not> st_fail s \<and> \<not> st_eof s)"

definition ignore_max :: "ifstream \<Rightarrow> ifstream" where
  \<comment> \<open>\<^verbatim>\<open>ignore(numeric_limits<streamsize>::max())\<close>: discards up to the end of the file\<close>
  "ignore_max s =
     (if good s
      then s\<lparr>st_gcount := length (st_data s) - st_pos s, st_pos := length (st_data s),
             st_eof := True\<rparr>
      else s\<lparr>st_fail := True, st_gcount := 0\<rparr>)"

definition clear :: "ifstream \<Rightarrow> ifstream" where
  "clear s = s\<lparr>st_fail := False, st_eof := False\<rparr>"

definition seekg_beg :: "ifstream \<Rightarrow> ifstream" where
  \<comment> \<open>\<^verbatim>\<open>seekg(0, ios::beg)\<close>: clears \<^verbatim>\<open>eofbit\<close>, then seeks unless the stream has failed\<close>
  "seekg_beg s =
     (let s1 = s\<lparr>st_eof := False\<rparr>
      in if st_fail s1 then s1
         else if st_open s1 then s1\<lparr>st_pos := 0\<rparr>
         else s1\<lparr>st_fail := True\<rparr>)"

definition read :: "ifstream \<Rightarrow> nat \<Rightarrow> ifstream \<times> string" where
  \<comment> \<open>\<^verbatim>\<open>read(buffer, n)\<close>: the stream after it, and the characters stored\<close>
  "read s n =
     (if good s
      then let got = take n (drop (st_pos s) (st_data s))
           in (s\<lparr>st_pos := st_pos s + length got, st_gcount := length got,
                 st_fail := (length got < n), st_eof := (length got < n)\<rparr>, got)
      else (s\<lparr>st_fail := True, st_gcount := 0\<rparr>, []))"

subsection \<open>Outcomes\<close>

datatype failure =
    InvalidInput
  | InvalidSize string
  | InvalidPadding string
  | UnexpectedArgument string
  | FailedToReadFile string
  | FailedToLoadPng string
  | PackingFailed string

datatype outcome =
    Success
  | Unchanged
  | ReturnFailure failure
  | ExitFailure failure
  | Terminate
  | Undefined

text \<open>
  \<open>Success\<close> and \<open>Unchanged\<close> are \<^verbatim>\<open>return EXIT_SUCCESS\<close> (the second after
  "atlas is unchanged"), \<open>ReturnFailure\<close> is \<^verbatim>\<open>return EXIT_FAILURE\<close>, \<open>ExitFailure\<close> is
  \<^verbatim>\<open>exit(EXIT_FAILURE)\<close>, \<open>Terminate\<close> is an uncaught exception, \<open>Undefined\<close> is
  \<^verbatim>\<open>back()\<close> of an empty vector.
\<close>

fun exit_code :: "outcome \<Rightarrow> int option" where
  "exit_code Success = Some 0"
| "exit_code Unchanged = Some 0"
| "exit_code (ReturnFailure e) = Some 1"
| "exit_code (ExitFailure e) = Some 1"
| "exit_code Terminate = None"
| "exit_code Undefined = None"

subsection \<open>\<^verbatim>\<open>hash.cpp\<close>\<close>

definition HashCombine :: "size_t \<Rightarrow> size_t \<Rightarrow> size_t" where
  \<comment> \<open>\<^verbatim>\<open>hash ^= v + 0x9e3779b9 + (hash<<6) + (hash>>2)\<close>\<close>
  "HashCombine hash v = hash XOR (v + 0x9e3779b9 + push_bit 6 hash + drop_bit 2 hash)"

definition HashString :: "(string \<Rightarrow> size_t) \<Rightarrow> size_t \<Rightarrow> string \<Rightarrow> size_t" where
  \<comment> \<open>the first argument is \<^verbatim>\<open>std::hash<std::string>\<close> of the host\<close>
  "HashString hasher hash str = HashCombine hash (hasher str)"

definition HashFile_text :: "filesystem \<Rightarrow> string \<Rightarrow> string option" where
  \<comment> \<open>the string \<^verbatim>\<open>text\<close> that \<^verbatim>\<open>HashFile\<close> builds, \<open>None\<close> when \<^verbatim>\<open>read\<close> fails\<close>
  "HashFile_text fs file =
     (let s0 = ifstream_open fs file True;
          s1 = ignore_max s0;
          len = st_gcount s1;
          s2 = clear s1;
          s3 = seekg_beg s2
      in case read s3 len of
           (s4, got) \<Rightarrow>
             if st_fail s4 then None
             else Some ((got @ replicate (Suc len - length got) NUL)[len := NUL]))"

definition HashFile :: "(string \<Rightarrow> size_t) \<Rightarrow> filesystem \<Rightarrow> size_t \<Rightarrow> string \<Rightarrow> outcome + size_t" where
  "HashFile hasher fs hash file =
     (case HashFile_text fs file of
        None \<Rightarrow> Inl (ExitFailure (FailedToReadFile file))
      | Some text \<Rightarrow> Inr (HashCombine hash (hasher text)))"

fun HashFiles_loop :: "(string \<Rightarrow> size_t) \<Rightarrow> filesystem \<Rightarrow> size_t \<Rightarrow> string list \<Rightarrow> outcome + size_t" where
  \<comment> \<open>the loop of \<^verbatim>\<open>HashFiles\<close> over the entries of a directory\<close>
  "HashFiles_loop hasher fs hash [] = Inr hash"
| "HashFiles_loop hasher fs hash (e # es) =
     (if is_regular_file fs e \<and> extension e = ''.png''
      then (case HashFile hasher fs hash e of
              Inl out \<Rightarrow> Inl out
            | Inr hash' \<Rightarrow> HashFiles_loop hasher fs hash' es)
      else HashFiles_loop hasher fs hash es)"

definition HashFiles :: "(string \<Rightarrow> size_t) \<Rightarrow> filesystem \<Rightarrow> size_t \<Rightarrow> string \<Rightarrow> outcome + size_t" where
  "HashFiles hasher fs hash root =
     (if is_directory fs root then HashFiles_loop hasher fs hash (directory_entries fs root)
      else if is_regular_file fs root \<and> extension root = ''.png''
      then HashFile hasher fs hash root
      else Inr hash)"

definition is_space :: "char \<Rightarrow> bool" where
  "is_space c = (c \<in> set [CHR '' '', CHR 0x09, CHR 0x0A, CHR 0x0B, CHR 0x0C, CHR 0x0D])"

definition extract_size_t :: "string \<Rightarrow> size_t \<Rightarrow> size_t" where
  \<comment> \<open>\<^verbatim>\<open>ss >> hash\<close> on a stream holding the characters: the value of \<^verbatim>\<open>hash\<close> after it.
      With nothing but white space the sentry fails and \<^verbatim>\<open>hash\<close> is not written; with no
      digit after an optional sign 0 is written; a value that does not fit is written as
      the largest; a minus sign negates.\<close>
  "extract_size_t cs hash =
     (let rest = dropWhile is_space cs
      in if rest = [] then hash
         else let neg = (hd rest = CHR ''-'');
                  body = (if hd rest = CHR ''-'' \<or> hd rest = CHR ''+'' then tl rest else rest);
                  ds = takeWhile is_digit body
              in if ds = [] then 0
                 else if 2 ^ 64 \<le> dec_value ds then - 1
                 else if neg then - of_nat (dec_value ds)
                 else of_nat (dec_value ds))"

definition LoadHash :: "filesystem \<Rightarrow> size_t \<Rightarrow> string \<Rightarrow> bool \<times> size_t" where
  \<comment> \<open>the result, and the value of the reference parameter \<^verbatim>\<open>hash\<close> after the call\<close>
  "LoadHash fs hash file =
     (if can_open fs file then (True, extract_size_t (file_bytes fs file) hash)
      else (False, hash))"

definition SaveHash :: "filesystem \<Rightarrow> size_t \<Rightarrow> string \<Rightarrow> filesystem" where
  "SaveHash fs hash file = write_file fs file (to_string (unat hash))"

subsection \<open>The data of \<^verbatim>\<open>main.cpp\<close>\<close>

text \<open>
  \<^verbatim>\<open>bitmap.hpp\<close> and \<^verbatim>\<open>packer.hpp\<close> are not among the sources. The records hold the
  members that \<^verbatim>\<open>main.cpp\<close> reads (\<^verbatim>\<open>name\<close>, \<^verbatim>\<open>width\<close>, \<^verbatim>\<open>height\<close> of a bitmap; \<^verbatim>\<open>width\<close>,
  \<^verbatim>\<open>height\<close>, \<^verbatim>\<open>bitmaps\<close> of a packer) and, for the rest, the pixels of a bitmap and the
  placements of a packer. The fields \<open>width\<close> and \<open>height\<close> hold the values of the C++
  \<^verbatim>\<open>int\<close> members; \<^verbatim>\<open>int\<close> is 32 bits wide, and where the program multiplies two of them
  the product is taken in 32 bits.
\<close>

record bitmap =
  name :: string
  width :: int
  height :: int
  pixels :: string

record point =
  pt_x :: int
  pt_y :: int
  pt_dupID :: int
  pt_rot :: bool

record packer =
  pk_width :: int
  pk_height :: int
  pk_pad :: int
  pk_bitmaps :: "bitmap list"
  pk_points :: "point list"

definition new_Packer :: "int \<Rightarrow> int \<Rightarrow> int \<Rightarrow> packer" where
  \<comment> \<open>\<^verbatim>\<open>new Packer(width, height, pad)\<close>\<close>
  "new_Packer w h p =
     \<lparr>pk_width = w, pk_height = h, pk_pad = p, pk_bitmaps = [], pk_points = []\<rparr>"

text \<open>The module-level variables of \<^verbatim>\<open>main.cpp\<close>.\<close>

record globals =
  optSize :: int
  optPadding :: int
  optXml :: bool
  optBinary :: bool
  optJson :: bool
  optPremultiply :: bool
  optTrim :: bool
  optVerbose :: bool
  optForce :: bool
  optUnique :: bool
  optRotate :: bool
  bitmaps :: "bitmap list"
  packers :: "packer list"

text \<open>
  What \<^verbatim>\<open>main.cpp\<close> calls and the sources do not hold: the string hash of the host,
  the constructor of \<^verbatim>\<open>Bitmap\<close> (\<open>None\<close> when it exits: the file does not decode), the
  member functions of \<^verbatim>\<open>Packer\<close>, \<^verbatim>\<open>WriteShort\<close>, and \<^verbatim>\<open>std::sort\<close> of the library (it
  receives the comparison and the vector, and returns the vector after the call; the
  order it gives to elements that compare equal is its own). \<^verbatim>\<open>Pack\<close> receives the vector of
  bitmaps by reference: it returns the packer and the vector after the call. The
  \<^verbatim>\<open>Save\<close> functions return the bytes they write.
\<close>

record externals =
  hasher :: "string \<Rightarrow> size_t"
  newBitmap :: "filesystem \<Rightarrow> string \<Rightarrow> string \<Rightarrow> bool \<Rightarrow> bool \<Rightarrow> bitmap option"
  Pack :: "packer \<Rightarrow> bitmap list \<Rightarrow> bool \<Rightarrow> bool \<Rightarrow> bool \<Rightarrow> packer \<times> bitmap list"
  SavePng :: "packer \<Rightarrow> string"
  SaveBin :: "packer \<Rightarrow> string \<Rightarrow> bool \<Rightarrow> bool \<Rightarrow> string"
  SaveXml :: "packer \<Rightarrow> string \<Rightarrow> bool \<Rightarrow> bool \<Rightarrow> string"
  SaveJson :: "packer \<Rightarrow> string \<Rightarrow> bool \<Rightarrow> bool \<Rightarrow> string"
  WriteShort :: "16 word \<Rightarrow> string"
  std_sort :: "(bitmap \<Rightarrow> bitmap \<Rightarrow> bool) \<Rightarrow> bitmap list \<Rightarrow> bitmap list"

subsection \<open>Loading bitmaps\<close>

definition LoadBitmap :: "externals \<Rightarrow> filesystem \<Rightarrow> globals \<Rightarrow> string \<Rightarrow> string \<Rightarrow> outcome + globals" where
  \<comment> \<open>\<^verbatim>\<open>erase\<close> throws \<^verbatim>\<open>out_of_range\<close> when the position is beyond the end (so for
      \<^verbatim>\<open>npos\<close>), and nothing catches it\<close>
  "LoadBitmap ext fs g directory path =
     (let relativePath = path_append (parent_path path) (stem (filename path))
      in case find_sub path directory of
           None \<Rightarrow> Inl Terminate
         | Some pos \<Rightarrow>
             if length relativePath < pos then Inl Terminate
             else (case newBitmap ext fs path (erase relativePath pos (length directory))
                          (optPremultiply g) (optTrim g) of
                     None \<Rightarrow> Inl (ExitFailure (FailedToLoadPng path))
                   | Some b \<Rightarrow> Inr (g\<lparr>bitmaps := bitmaps g @ [b]\<rparr>)))"

fun LoadBitmaps_loop :: "externals \<Rightarrow> filesystem \<Rightarrow> globals \<Rightarrow> string \<Rightarrow> string list \<Rightarrow> outcome + globals" where
  "LoadBitmaps_loop ext fs g root [] = Inr g"
| "LoadBitmaps_loop ext fs g root (e # es) =
     (if is_regular_file fs e \<and> extension e = ''.png''
      then (case LoadBitmap ext fs g root e of
              Inl out \<Rightarrow> Inl out
            | Inr g' \<Rightarrow> LoadBitmaps_loop ext fs g' root es)
      else LoadBitmaps_loop ext fs g root es)"

definition LoadBitmaps :: "externals \<Rightarrow> filesystem \<Rightarrow> globals \<Rightarrow> string \<Rightarrow> outcome + globals" where
  "LoadBitmaps ext fs g root =
     (if is_directory fs root then LoadBitmaps_loop ext fs g root (directory_entries fs root)
      else if is_regular_file fs root \<and> extension root = ''.png''
      then LoadBitmap ext fs g root root
      else Inr g)"

subsection \<open>Options\<close>

definition GetPackSize :: "string \<Rightarrow> outcome + int" where
  "GetPackSize str =
     (if str = ''4096'' then Inr 4096
      else if str = ''2048'' then Inr 2048
      else if str = ''1024'' then Inr 1024
      else if str = ''512'' then Inr 512
      else if str = ''256'' then Inr 256
      else if str = ''128'' then Inr 128
      else if str = ''64'' then Inr 64
      else Inl (ExitFailure (InvalidSize str)))"

definition GetPadding :: "string \<Rightarrow> outcome + int" where
  \<comment> \<open>\<^verbatim>\<open>for (int i = 0; i <= 16; ++i) if (str == to_string(i)) return i;\<close>\<close>
  "GetPadding str =
     (case find (\<lambda>i. str = to_string i) [0..<17] of
        Some i \<Rightarrow> Inr (int i)
      | None \<Rightarrow> Inl (ExitFailure (InvalidPadding str)))"

definition init_options :: "globals \<Rightarrow> globals" where
  \<comment> \<open>the assignments under \<^verbatim>\<open>//Get the options\<close>\<close>
  "init_options g =
     g\<lparr>optSize := 4096, optPadding := 1, optXml := False, optBinary := False,
       optJson := False, optPremultiply := False, optTrim := False, optVerbose := False,
       optForce := False, optUnique := False\<rparr>"

definition parse_option :: "globals \<Rightarrow> string \<Rightarrow> outcome + globals" where
  \<comment> \<open>the body of the loop over \<^verbatim>\<open>argv[3..]\<close>\<close>
  "parse_option g arg =
     (if arg = ''-d'' \<or> arg = ''--default''
      then Inr (g\<lparr>optXml := True, optPremultiply := True, optTrim := True, optUnique := True\<rparr>)
      else if arg = ''-x'' \<or> arg = ''--xml'' then Inr (g\<lparr>optXml := True\<rparr>)
      else if arg = ''-b'' \<or> arg = ''--binary'' then Inr (g\<lparr>optBinary := True\<rparr>)
      else if arg = ''-j'' \<or> arg = ''--json'' then Inr (g\<lparr>optJson := True\<rparr>)
      else if arg = ''-p'' \<or> arg = ''--premultiply'' then Inr (g\<lparr>optPremultiply := True\<rparr>)
      else if arg = ''-t'' \<or> arg = ''--trim'' then Inr (g\<lparr>optTrim := True\<rparr>)
      else if arg = ''-v'' \<or> arg = ''--verbose'' then Inr (g\<lparr>optVerbose := True\<rparr>)
      else if arg = ''-f'' \<or> arg = ''--force'' then Inr (g\<lparr>optForce := True\<rparr>)
      else if arg = ''-u'' \<or> arg = ''--unique'' then Inr (g\<lparr>optUnique := True\<rparr>)
      else if arg = ''-r'' \<or> arg = ''--rotate'' then Inr (g\<lparr>optRotate := True\<rparr>)
      else if starts_with arg ''--size''
      then (case GetPackSize (substr arg 6) of
              Inl out \<Rightarrow> Inl out | Inr n \<Rightarrow> Inr (g\<lparr>optSize := n\<rparr>))
      else if starts_with arg ''-s''
      then (case GetPackSize (substr arg 2) of
              Inl out \<Rightarrow> Inl out | Inr n \<Rightarrow> Inr (g\<lparr>optSize := n\<rparr>))
      else if starts_with arg ''--pad''
      then (case GetPadding (substr arg 5) of
              Inl out \<Rightarrow> Inl out | Inr n \<Rightarrow> Inr (g\<lparr>optPadding := n\<rparr>))
      else if starts_with arg ''-p''
      then (case GetPadding (substr arg 2) of
              Inl out \<Rightarrow> Inl out | Inr n \<Rightarrow> Inr (g\<lparr>optPadding := n\<rparr>))
      else Inl (ReturnFailure (UnexpectedArgument arg)))"

fun parse_options :: "globals \<Rightarrow> string list \<Rightarrow> (outcome \<times> globals) + globals" where
  \<comment> \<open>on a failure, the outcome and the variables as they are then\<close>
  "parse_options g [] = Inr g"
| "parse_options g (arg # args) =
     (case parse_option g arg of
        Inl out \<Rightarrow> Inl (out, g)
      | Inr g' \<Rightarrow> parse_options g' args)"

subsection \<open>The stages of \<^verbatim>\<open>crunch_main\<close>\<close>

fun hash_inputs :: "(string \<Rightarrow> size_t) \<Rightarrow> filesystem \<Rightarrow> size_t \<Rightarrow> string list \<Rightarrow> outcome + size_t" where
  \<comment> \<open>the loop over \<^verbatim>\<open>inputs\<close> under \<^verbatim>\<open>//Hash the arguments and input directories\<close>\<close>
  "hash_inputs h fs hash [] = Inr hash"
| "hash_inputs h fs hash (i # is) =
     (if is_directory fs i
      then (case HashFiles h fs hash i of
              Inl out \<Rightarrow> Inl out
            | Inr hash' \<Rightarrow> hash_inputs h fs hash' is)
      else if is_regular_file fs i
      then (case HashFile h fs hash i of
              Inl out \<Rightarrow> Inl out
            | Inr hash' \<Rightarrow> hash_inputs h fs hash' is)
      else hash_inputs h fs hash is)"

definition compute_newHash :: "(string \<Rightarrow> size_t) \<Rightarrow> filesystem \<Rightarrow> string list \<Rightarrow> string list \<Rightarrow> outcome + size_t" where
  \<comment> \<open>\<^verbatim>\<open>newHash\<close>: from 0, \<^verbatim>\<open>HashString\<close> of \<^verbatim>\<open>argv[1..]\<close>, then the inputs\<close>
  "compute_newHash h fs argv inputs =
     hash_inputs h fs (foldl (HashString h) 0 (drop 1 argv)) inputs"

definition page_file :: "string \<Rightarrow> nat \<Rightarrow> string" where
  \<comment> \<open>\<^verbatim>\<open>outputName + to_string(i) + ".png"\<close>\<close>
  "page_file outputName i = outputName @ to_string i @ ''.png''"

definition remove_old_files :: "filesystem \<Rightarrow> string \<Rightarrow> filesystem" where
  \<comment> \<open>the statements under \<^verbatim>\<open>//Remove old files\<close>\<close>
  "remove_old_files fs outputName =
     foldl (\<lambda>fs' i. RemoveFile fs' (page_file outputName i))
       (RemoveFile (RemoveFile (RemoveFile (RemoveFile fs (outputName @ ''.hash''))
          (outputName @ ''.bin'')) (outputName @ ''.xml'')) (outputName @ ''.json''))
       [0..<16]"

fun load_inputs :: "externals \<Rightarrow> filesystem \<Rightarrow> globals \<Rightarrow> string list \<Rightarrow> (outcome \<times> globals) + globals" where
  \<comment> \<open>the loop over \<^verbatim>\<open>inputs\<close> under \<^verbatim>\<open>//Load the bitmaps from all the input files and
      directories\<close>; on a failure, the outcome and the variables as they are then\<close>
  "load_inputs ext fs g [] = Inr g"
| "load_inputs ext fs g (i # is) =
     (if is_directory fs i
      then (case LoadBitmaps ext fs g i of
              Inl out \<Rightarrow> Inl (out, g)
            | Inr g' \<Rightarrow> load_inputs ext fs g' is)
      else load_inputs ext fs g is)"

definition area :: "bitmap \<Rightarrow> int" where
  \<comment> \<open>\<^verbatim>\<open>a->width * a->height\<close>: the product of two \<^verbatim>\<open>int\<close>, in 32 bits, read as a signed
      value (a product that does not fit wraps around)\<close>
  "area b = sint (word_of_int (width b) * word_of_int (height b) :: 32 word)"

definition area_less :: "bitmap \<Rightarrow> bitmap \<Rightarrow> bool" where
  \<comment> \<open>the comparison \<^verbatim>\<open>crunch_main\<close> passes to \<^verbatim>\<open>sort\<close>\<close>
  "area_less a b = (area a < area b)"

definition sort_bitmaps :: "externals \<Rightarrow> globals \<Rightarrow> globals" where
  \<comment> \<open>\<^verbatim>\<open>sort(bitmaps.begin(), bitmaps.end(), ...)\<close> with that comparison\<close>
  "sort_bitmaps ext g = g\<lparr>bitmaps := std_sort ext area_less (bitmaps g)\<rparr>"

definition pack_round :: "externals \<Rightarrow> globals \<Rightarrow> packer \<times> globals" where
  \<comment> \<open>one round of the loop under \<^verbatim>\<open>//Pack the bitmaps\<close>, up to \<^verbatim>\<open>packers.push_back\<close>\<close>
  "pack_round ext g =
     (case Pack ext (new_Packer (optSize g) (optSize g) (optPadding g)) (bitmaps g)
             (optVerbose g) (optUnique g) (optRotate g) of
        (pk, bs) \<Rightarrow> (pk, g\<lparr>bitmaps := bs, packers := packers g @ [pk]\<rparr>))"

partial_function (option) pack_loop :: "externals \<Rightarrow> globals \<Rightarrow> (outcome option \<times> globals) option" where
  \<comment> \<open>\<^verbatim>\<open>while (!bitmaps.empty())\<close>: \<open>None\<close> when the loop does not end; otherwise the
      outcome when the loop returns from \<^verbatim>\<open>crunch_main\<close>, and the variables\<close>
  "pack_loop ext g =
     (if bitmaps g = [] then Some (None, g)
      else (case pack_round ext g of
              (pk, g') \<Rightarrow>
                if pk_bitmaps pk = []
                then (if bitmaps g' = [] then Some (Some Undefined, g')
                      else Some (Some (ReturnFailure (PackingFailed (name (last (bitmaps g'))))), g'))
                else pack_loop ext g'))"

definition indexed :: "'a list \<Rightarrow> (nat \<times> 'a) list" where
  "indexed xs = zip [0..<length xs] xs"

definition save_pngs :: "externals \<Rightarrow> string \<Rightarrow> packer list \<Rightarrow> filesystem \<Rightarrow> filesystem" where
  \<comment> \<open>the loop under \<^verbatim>\<open>//Save the atlas image\<close>\<close>
  "save_pngs ext outputName ps fs =
     foldl (\<lambda>fs' (i, p). write_file fs' (page_file outputName i) (SavePng ext p)) fs (indexed ps)"

definition bin_page_name :: "string \<Rightarrow> nat \<Rightarrow> string" where
  \<comment> \<open>the name \<^verbatim>\<open>SaveBin\<close> receives for page \<open>i\<close>: \<^verbatim>\<open>relativePath + to_string(i)\<close>\<close>
  "bin_page_name outputPath i = parent_path outputPath @ to_string i"

definition xml_page_name :: "string \<Rightarrow> nat \<Rightarrow> string" where
  \<comment> \<open>the name \<^verbatim>\<open>SaveXml\<close> receives for page \<open>i\<close>: \<^verbatim>\<open>relativePath + to_string(i)\<close>\<close>
  "xml_page_name outputPath i = parent_path outputPath @ to_string i"

definition json_page_name :: "string \<Rightarrow> nat \<Rightarrow> string" where
  \<comment> \<open>the name \<^verbatim>\<open>SaveJson\<close> receives for page \<open>i\<close>: \<^verbatim>\<open>name + to_string(i)\<close>\<close>
  "json_page_name outputPath i = stem (filename outputPath) @ to_string i"

definition bin_text :: "externals \<Rightarrow> string \<Rightarrow> globals \<Rightarrow> string" where
  "bin_text ext outputPath g =
     WriteShort ext (of_nat (length (packers g))) @
     concat (map (\<lambda>(i, p). SaveBin ext p (bin_page_name outputPath i) (optTrim g) (optRotate g))
               (indexed (packers g)))"

definition xml_text :: "externals \<Rightarrow> string \<Rightarrow> globals \<Rightarrow> string" where
  "xml_text ext outputPath g =
     ''<atlas>'' @ endl @
     concat (map (\<lambda>(i, p). SaveXml ext p (xml_page_name outputPath i) (optTrim g) (optRotate g))
               (indexed (packers g))) @
     ''</atlas>''"

definition json_text :: "externals \<Rightarrow> string \<Rightarrow> globals \<Rightarrow> string" where
  "json_text ext outputPath g =
     ''{'' @ endl @ [CHR 0x09, CHR 0x22] @ ''textures'' @ [CHR 0x22] @ '':['' @ endl @
     concat (map (\<lambda>(i, p).
                [CHR 0x09, CHR 0x09] @ ''{'' @ endl @
                SaveJson ext p (json_page_name outputPath i) (optTrim g) (optRotate g) @
                [CHR 0x09, CHR 0x09] @ ''}'' @
                (if i + 1 < length (packers g) then '','' else []) @ endl)
               (indexed (packers g))) @
     [CHR 0x09] @ '']'' @ endl @ ''}''"

definition output_name :: "string \<Rightarrow> string" where
  \<comment> \<open>\<^verbatim>\<open>outputName\<close>: \<^verbatim>\<open>outputPath.parent_path() / outputPath.filename().stem()\<close>\<close>
  "output_name outputPath = path_append (parent_path outputPath) (stem (filename outputPath))"

definition save_outputs :: "externals \<Rightarrow> string \<Rightarrow> size_t \<Rightarrow> globals \<Rightarrow> filesystem \<Rightarrow> filesystem" where
  \<comment> \<open>from \<^verbatim>\<open>//Save the atlas image\<close> to \<^verbatim>\<open>SaveHash\<close>\<close>
  "save_outputs ext outputPath newHash g fs =
     (let outputName = output_name outputPath;
          fs1 = save_pngs ext outputName (packers g) fs;
          fs2 = (if optBinary g then write_file fs1 (outputName @ ''.bin'') (bin_text ext outputPath g)
                 else fs1);
          fs3 = (if optXml g then write_file fs2 (outputName @ ''.xml'') (xml_text ext outputPath g)
                 else fs2);
          fs4 = (if optJson g then write_file fs3 (outputName @ ''.json'') (json_text ext outputPath g)
                 else fs3)
      in SaveHash fs4 newHash (outputName @ ''.hash''))"

subsection \<open>\<^verbatim>\<open>crunch_main\<close>\<close>

definition pack_and_save :: "externals \<Rightarrow> string \<Rightarrow> size_t \<Rightarrow> globals \<Rightarrow> filesystem \<Rightarrow> (outcome \<times> globals \<times> filesystem) option" where
  \<comment> \<open>from \<^verbatim>\<open>//Sort the bitmaps by area\<close> to the end\<close>
  "pack_and_save ext outputPath newHash g fs =
     (case pack_loop ext (sort_bitmaps ext g) of
        None \<Rightarrow> None
      | Some (Some out, g') \<Rightarrow> Some (out, g', fs)
      | Some (None, g') \<Rightarrow> Some (Success, g', save_outputs ext outputPath newHash g' fs))"

definition repack :: "externals \<Rightarrow> string \<Rightarrow> string list \<Rightarrow> size_t \<Rightarrow> globals \<Rightarrow> filesystem \<Rightarrow> (outcome \<times> globals \<times> filesystem) option" where
  \<comment> \<open>from \<^verbatim>\<open>//Remove old files\<close> to the end\<close>
  "repack ext outputPath inputs newHash g fs =
     (let fs1 = remove_old_files fs (output_name outputPath)
      in (case load_inputs ext fs1 g inputs of
            Inl (out, g2) \<Rightarrow> Some (out, g2, fs1)
          | Inr g2 \<Rightarrow> pack_and_save ext outputPath newHash g2 fs1))"

definition gate :: "externals \<Rightarrow> size_t \<Rightarrow> string \<Rightarrow> string list \<Rightarrow> size_t \<Rightarrow> globals \<Rightarrow> filesystem \<Rightarrow> (outcome \<times> globals \<times> filesystem) option" where
  \<comment> \<open>from \<^verbatim>\<open>//Load the old hash\<close> to the end\<close>
  "gate ext oldHash0 outputPath inputs newHash g fs =
     (case LoadHash fs oldHash0 (output_name outputPath @ ''.hash'') of
        (loaded, oldHash) \<Rightarrow>
          if loaded \<and> \<not> optForce g \<and> newHash = oldHash then Some (Unchanged, g, fs)
          else repack ext outputPath inputs newHash g fs)"

definition crunch_main :: "externals \<Rightarrow> size_t \<Rightarrow> string list \<Rightarrow> globals \<Rightarrow> filesystem \<Rightarrow> (outcome \<times> globals \<times> filesystem) option" where
  \<comment> \<open>\<open>oldHash0\<close> is the value the local \<^verbatim>\<open>oldHash\<close>, which has no initialiser, holds before
      \<^verbatim>\<open>LoadHash\<close>. The result is \<open>None\<close> when the packing loop does not end; otherwise the
      outcome, the module-level variables and the file system after the call.\<close>
  "crunch_main ext oldHash0 argv g fs =
     (if length argv < 3 then Some (ReturnFailure InvalidInput, g, fs)
      else (let outputPath = argv ! 1;
                inputs = split_on (CHR '','') (argv ! 2)
            in (case parse_options (init_options g) (drop 3 argv) of
                  Inl (out, g1) \<Rightarrow> Some (out, g1, fs)
                | Inr g1 \<Rightarrow>
                    (case compute_newHash (hasher ext) fs argv inputs of
                       Inl out \<Rightarrow> Some (out, g1, fs)
                     | Inr newHash \<Rightarrow> gate ext oldHash0 outputPath inputs newHash g1 fs))))"

section \<open>Definitions for the statements\<close>

subsection \<open>The contributors of the fingerprint\<close>

definition png_entries :: "filesystem \<Rightarrow> string \<Rightarrow> string list" where
  \<comment> \<open>the entries of a directory that are regular files with the extension \<^verbatim>\<open>.png\<close>\<close>
  "png_entries fs root =
     filter (\<lambda>e. is_regular_file fs e \<and> extension e = ''.png'') (directory_entries fs root)"

definition hashed_files :: "filesystem \<Rightarrow> string list \<Rightarrow> string list" where
  \<comment> \<open>the files \<^verbatim>\<open>crunch_main\<close> passes to \<^verbatim>\<open>HashFile\<close>, in order\<close>
  "hashed_files fs inputs =
     concat (map (\<lambda>i. if is_directory fs i then png_entries fs i
                       else if is_regular_file fs i then [i] else []) inputs)"

text \<open>
  The fingerprint in the words of the specification: from 0, every argument token, then
  for each input path the whole contents of every \<^verbatim>\<open>.png\<close> file.
\<close>

definition spec_png_contents :: "filesystem \<Rightarrow> string \<Rightarrow> string list" where
  "spec_png_contents fs input =
     (if is_directory fs input then map (file_bytes fs) (png_entries fs input)
      else if is_regular_file fs input \<and> extension input = ''.png'' then [file_bytes fs input]
      else [])"

definition spec_fingerprint :: "(string \<Rightarrow> size_t) \<Rightarrow> filesystem \<Rightarrow> string list \<Rightarrow> string list \<Rightarrow> size_t" where
  "spec_fingerprint H fs argv inputs =
     foldl (\<lambda>h v. h XOR (H v + 0x9E3779B9 + push_bit 6 h + drop_bit 2 h)) 0
       (drop 1 argv @ concat (map (spec_png_contents fs) inputs))"

subsection \<open>Option tokens and hash files\<close>

definition valid_padding :: "string \<Rightarrow> bool" where
  \<comment> \<open>the decimal numeral of one of 0, ..., 16, as \<^verbatim>\<open>to_string\<close> writes it\<close>
  "valid_padding s = (s \<in> set (map to_string [0..<17]))"

definition bad_pad_token :: "string \<Rightarrow> bool" where
  \<comment> \<open>a token that starts with \<^verbatim>\<open>-p\<close>, has a suffix, and the suffix is no padding value\<close>
  "bad_pad_token arg = (starts_with arg ''-p'' \<and> arg \<noteq> ''-p'' \<and> \<not> valid_padding (drop 2 arg))"

definition no_number :: "string \<Rightarrow> bool" where
  \<comment> \<open>there is a character that is not white space, and what follows the white space and
      an optional sign does not start with a digit\<close>
  "no_number cs =
     (let rest = dropWhile is_space cs;
          body = (if rest \<noteq> [] \<and> (hd rest = CHR ''-'' \<or> hd rest = CHR ''+'') then tl rest else rest)
      in rest \<noteq> [] \<and> takeWhile is_digit body = [])"

subsection \<open>The sort\<close>

definition strict_weak_order :: "('a \<Rightarrow> 'a \<Rightarrow> bool) \<Rightarrow> bool" where
  \<comment> \<open>what \<^verbatim>\<open>std::sort\<close> requires of its comparison\<close>
  "strict_weak_order cmp =
     ((\<forall>a. \<not> cmp a a) \<and>
      (\<forall>a b c. cmp a b \<and> cmp b c \<longrightarrow> cmp a c) \<and>
      (\<forall>a b c. cmp a b \<longrightarrow> cmp a c \<or> cmp c b))"

definition sort_contract :: "((bitmap \<Rightarrow> bitmap \<Rightarrow> bool) \<Rightarrow> bitmap list \<Rightarrow> bitmap list) \<Rightarrow> bool" where
  \<comment> \<open>what the library promises of \<^verbatim>\<open>std::sort\<close>: for a comparison that is a strict weak
      order, the elements are rearranged so that no element compares less than one
      before it\<close>
  "sort_contract srt =
     (\<forall>cmp xs. strict_weak_order cmp \<longrightarrow>
        mset (srt cmp xs) = mset xs \<and> sorted_wrt (\<lambda>a b. \<not> cmp b a) (srt cmp xs))"

definition fits_int :: "bitmap \<Rightarrow> bool" where
  \<comment> \<open>the product of the width and the height is a value of \<^verbatim>\<open>int\<close>\<close>
  "fits_int b = (- (2 ^ 31) \<le> width b * height b \<and> width b * height b < 2 ^ 31)"

fun insert_by :: "('a \<Rightarrow> 'a \<Rightarrow> bool) \<Rightarrow> 'a \<Rightarrow> 'a list \<Rightarrow> 'a list" where
  "insert_by cmp x [] = [x]"
| "insert_by cmp x (y # ys) = (if cmp x y then x # y # ys else y # insert_by cmp x ys)"

definition insertion_sort :: "('a \<Rightarrow> 'a \<Rightarrow> bool) \<Rightarrow> 'a list \<Rightarrow> 'a list" where
  \<comment> \<open>a sort to evaluate with\<close>
  "insertion_sort cmp xs = foldr (insert_by cmp) xs []"

subsection \<open>The rounds of the packing loop\<close>

fun rounds :: "externals \<Rightarrow> nat \<Rightarrow> globals \<Rightarrow> globals option" where
  \<comment> \<open>the variables after \<open>n\<close> rounds that each placed a bitmap; \<open>None\<close> when the loop has
      ended before\<close>
  "rounds ext 0 g = Some g"
| "rounds ext (Suc n) g =
     (if bitmaps g = [] then None
      else (case pack_round ext g of
              (pk, g') \<Rightarrow> if pk_bitmaps pk = [] then None else rounds ext n g'))"

subsection \<open>Concrete inputs\<close>

definition fnv1a :: "string \<Rightarrow> size_t" where
  \<comment> \<open>a string hash to evaluate with: 64-bit FNV-1a, which the specification names as a
      portable choice for the content hash\<close>
  "fnv1a s = foldl (\<lambda>h c. (h XOR of_char c) * 0x100000001b3) 0xcbf29ce484222325 s"

definition demo_fs :: filesystem where
  "demo_fs = [''in'' \<mapsto> Directory [''in/a.png'', ''in/notes.txt''],
              ''in/a.png'' \<mapsto> RegFile True ''PNG'',
              ''in/notes.txt'' \<mapsto> RegFile True ''hello'']"

definition hash_fs :: "string \<Rightarrow> filesystem" where
  \<comment> \<open>the files above, and \<^verbatim>\<open>out.hash\<close> with the content given\<close>
  "hash_fs content = demo_fs(''out.hash'' \<mapsto> RegFile True content)"

definition initial_globals :: globals where
  \<comment> \<open>the module-level variables when the process starts: statics are zero-initialised\<close>
  "initial_globals =
     \<lparr>optSize = 0, optPadding = 0, optXml = False, optBinary = False, optJson = False,
      optPremultiply = False, optTrim = False, optVerbose = False, optForce = False,
      optUnique = False, optRotate = False, bitmaps = [], packers = []\<rparr>"

text \<open>
  Stand-ins for what the sources do not hold, to evaluate with: a file of \<open>n\<close> bytes
  decodes to a bitmap \<open>40 * n\<close> wide and 1 high; \<^verbatim>\<open>Pack\<close> places the last bitmap of the
  vector when it is no larger than the page, and nothing otherwise; the \<^verbatim>\<open>Save\<close>
  functions write the page name they receive; the sort is an insertion sort.
\<close>

definition demo_ext :: externals where
  "demo_ext =
     \<lparr>hasher = fnv1a,
      newBitmap = (\<lambda>fs path nm pre trim.
         if can_open fs path
         then Some \<lparr>name = nm, width = 40 * int (length (file_bytes fs path)), height = 1,
                    pixels = file_bytes fs path\<rparr>
         else None),
      Pack = (\<lambda>pk bs verbose unique rot.
         if bs \<noteq> [] \<and> width (last bs) \<le> pk_width pk \<and> height (last bs) \<le> pk_height pk
         then (pk\<lparr>pk_bitmaps := [last bs],
                  pk_points := [\<lparr>pt_x = 0, pt_y = 0, pt_dupID = - 1, pt_rot = False\<rparr>]\<rparr>, butlast bs)
         else (pk, bs)),
      SavePng = (\<lambda>pk. concat (map pixels (pk_bitmaps pk))),
      SaveBin = (\<lambda>pk nm trim rot. nm),
      SaveXml = (\<lambda>pk nm trim rot. nm),
      SaveJson = (\<lambda>pk nm trim rot. nm),
      WriteShort = (\<lambda>w. [char_of (unat w mod 256), char_of (unat w div 256)]),
      std_sort = insertion_sort\<rparr>"

definition wide_globals :: globals where
  \<comment> \<open>the variables before the sort when \<^verbatim>\<open>-s64\<close> was given and \<^verbatim>\<open>in/a.png\<close> is loaded\<close>
  "wide_globals = initial_globals\<lparr>optSize := 64, optPadding := 1,
     bitmaps := [\<lparr>name = ''/a'', width = 120, height = 1, pixels = ''PNG''\<rparr>]\<rparr>"

text \<open>
  The bitmap the stand-in decoder gives for \<^verbatim>\<open>in/a.png\<close>, the page the stand-in packer
  makes of it, and the variables after the run \<^verbatim>\<open>crunch out in -f\<close>.
\<close>

definition bitmap_a :: bitmap where
  "bitmap_a = \<lparr>name = ''/a'', width = 120, height = 1, pixels = ''PNG''\<rparr>"

definition page_a :: packer where
  "page_a = \<lparr>pk_width = 4096, pk_height = 4096, pk_pad = 1, pk_bitmaps = [bitmap_a],
     pk_points = [\<lparr>pt_x = 0, pt_y = 0, pt_dupID = - 1, pt_rot = False\<rparr>]\<rparr>"

definition after_run :: "globals \<Rightarrow> globals" where
  "after_run g = (init_options g)\<lparr>optForce := True, bitmaps := [], packers := packers g @ [page_a]\<rparr>"

definition holds_inputs :: "filesystem \<Rightarrow> bool" where
  \<comment> \<open>the file system has the input directory of the example\<close>
  "holds_inputs F =
     (F ''in'' = Some (Directory [''in/a.png'', ''in/notes.txt'']) \<and>
      F ''in/a.png'' = Some (RegFile True ''PNG'') \<and>
      F ''in/notes.txt'' = Some (RegFile True ''hello''))"

definition stale_fs :: filesystem where
  \<comment> \<open>the example after an earlier run that wrote a page 16\<close>
  "stale_fs = demo_fs(''out16.png'' \<mapsto> RegFile True ''old'')"

section \<open>Properties\<close>

lemmas fs_defs = is_directory_def is_regular_file_def directory_entries_def can_open_def
  file_bytes_def

lemmas path_defs = extension_def filename_def has_extension_def dot_suffix_def stem_def
  parent_path_def path_append_def output_name_def

subsection \<open>The fingerprint\<close>

lemma those_append:
  "those (xs @ ys) = (case those xs of None \<Rightarrow> None | Some a \<Rightarrow> map_option ((@) a) (those ys))"
  by (induction xs) (cases "those ys"; auto split: option.splits)+

lemma those_Some_set:
  "those xs = Some ys \<Longrightarrow> y \<in> set ys \<Longrightarrow> Some y \<in> set xs"
  by (induction xs arbitrary: ys) (auto split: option.splits)

text \<open>
  When \<^verbatim>\<open>read\<close> succeeds it has stored \<^verbatim>\<open>length\<close> characters, and \<^verbatim>\<open>buffer[length]\<close>
  is the NUL that ends \<^verbatim>\<open>text\<close>.
\<close>

lemma HashFile_text_Some:
  assumes "HashFile_text fs file = Some t"
  shows "\<exists>bs. t = bs @ [NUL]"
proof -
  define s3 where "s3 = seekg_beg (clear (ignore_max (ifstream_open fs file True)))"
  define len where "len = st_gcount (ignore_max (ifstream_open fs file True))"
  obtain s4 got where r: "read s3 len = (s4, got)" by (cases "read s3 len")
  from assms r have nf: "\<not> st_fail s4"
    and t: "t = (got @ replicate (Suc len - length got) NUL)[len := NUL]"
    by (auto simp: HashFile_text_def Let_def s3_def len_def split: if_splits)
  from r nf have "length got = len"
    by (auto simp: read_def Let_def split: if_splits)
  with t have "t = got @ [NUL]" by (simp add: list_update_append)
  then show ?thesis by blast
qed

text \<open>
  The stream is opened with \<^verbatim>\<open>ios::ate\<close>, so \<^verbatim>\<open>ignore\<close> starts at the end of the file,
  discards nothing, and \<^verbatim>\<open>gcount()\<close> is 0: for every file that opens, \<^verbatim>\<open>text\<close> is the one
  NUL character, whatever the file holds.
\<close>

lemma HashFile_text_eq:
  "HashFile_text fs file = (if can_open fs file then Some [NUL] else None)"
  by (simp add: HashFile_text_def ifstream_open_def ignore_max_def good_def clear_def
      seekg_beg_def read_def Let_def)

lemma HashFiles_loop_Some:
  "those (map (HashFile_text fs) (filter (\<lambda>e. is_regular_file fs e \<and> extension e = ''.png'') es)) = Some ts
   \<Longrightarrow> HashFiles_loop h fs hash es = Inr (foldl (\<lambda>a v. HashCombine a (h v)) hash ts)"
  by (induction es arbitrary: hash ts) (auto simp: HashFile_def split: option.splits)

lemma HashFiles_loop_None:
  "those (map (HashFile_text fs) (filter (\<lambda>e. is_regular_file fs e \<and> extension e = ''.png'') es)) = None
   \<Longrightarrow> \<exists>f. HashFiles_loop h fs hash es = Inl (ExitFailure (FailedToReadFile f))"
  by (induction es arbitrary: hash) (auto simp: HashFile_def split: option.splits)

lemma hash_inputs_Some:
  "those (map (HashFile_text fs) (hashed_files fs inputs)) = Some ts
   \<Longrightarrow> hash_inputs h fs hash inputs = Inr (foldl (\<lambda>a v. HashCombine a (h v)) hash ts)"
proof (induction inputs arbitrary: hash ts)
  case Nil
  then show ?case by (simp add: hashed_files_def)
next
  case (Cons i "is")
  show ?case
  proof (cases "is_directory fs i")
    case True
    from Cons.prems True obtain t1 t2 where
      t1: "those (map (HashFile_text fs) (png_entries fs i)) = Some t1" and
      t2: "those (map (HashFile_text fs) (hashed_files fs is)) = Some t2" and
      ts: "ts = t1 @ t2"
      by (auto simp: hashed_files_def those_append split: option.splits)
    from t1 have "HashFiles h fs hash i = Inr (foldl (\<lambda>a v. HashCombine a (h v)) hash t1)"
      using True by (simp add: HashFiles_def png_entries_def HashFiles_loop_Some)
    then show ?thesis using True Cons.IH[OF t2] ts by simp
  next
    case False
    show ?thesis
    proof (cases "is_regular_file fs i")
      case True
      from Cons.prems True False obtain t1 t2 where
        t1: "HashFile_text fs i = Some t1" and
        t2: "those (map (HashFile_text fs) (hashed_files fs is)) = Some t2" and
        ts: "ts = t1 # t2"
        by (auto simp: hashed_files_def split: option.splits)
      then show ?thesis using True False Cons.IH[OF t2] by (simp add: HashFile_def)
    next
      case nr: False
      with False Cons show ?thesis by (simp add: hashed_files_def)
    qed
  qed
qed

lemma hash_inputs_None:
  "those (map (HashFile_text fs) (hashed_files fs inputs)) = None
   \<Longrightarrow> \<exists>f. hash_inputs h fs hash inputs = Inl (ExitFailure (FailedToReadFile f))"
proof (induction inputs arbitrary: hash)
  case Nil
  then show ?case by (simp add: hashed_files_def)
next
  case (Cons i "is")
  show ?case
  proof (cases "is_directory fs i")
    case True
    show ?thesis
    proof (cases "those (map (HashFile_text fs) (png_entries fs i))")
      case None
      then obtain f where "HashFiles h fs hash i = Inl (ExitFailure (FailedToReadFile f))"
        using True HashFiles_loop_None[of fs "directory_entries fs i" h hash]
        by (auto simp: HashFiles_def png_entries_def)
      then show ?thesis using True by auto
    next
      case (Some t1)
      then have 1: "HashFiles h fs hash i = Inr (foldl (\<lambda>a v. HashCombine a (h v)) hash t1)"
        using True by (simp add: HashFiles_def png_entries_def HashFiles_loop_Some)
      from Cons.prems True Some have "those (map (HashFile_text fs) (hashed_files fs is)) = None"
        by (auto simp: hashed_files_def those_append split: option.splits)
      from Cons.IH[OF this] 1 True show ?thesis by simp
    qed
  next
    case False
    show ?thesis
    proof (cases "is_regular_file fs i")
      case True
      show ?thesis
      proof (cases "HashFile_text fs i")
        case None
        then show ?thesis using True False by (auto simp: HashFile_def)
      next
        case (Some t1)
        with Cons.prems True False have "those (map (HashFile_text fs) (hashed_files fs is)) = None"
          by (auto simp: hashed_files_def split: option.splits)
        from Cons.IH[OF this] Some True False show ?thesis by (simp add: HashFile_def)
      qed
    next
      case nr: False
      with False Cons show ?thesis by (simp add: hashed_files_def)
    qed
  qed
qed

text \<open>
  C1, as amended. The fingerprint starts from 0 and folds every contributor \<open>v\<close> in with
  \<open>h XOR (H v + 0x9e3779b9 + (h << 6) + (h >> 2))\<close>. The contributors are, in order,
  \<^verbatim>\<open>argv[1..]\<close> and then the string that \<^verbatim>\<open>HashFile\<close> builds for every hashed file:
  for an input that is a directory, its regular \<^verbatim>\<open>.png\<close> entries in the order of the
  iteration; for an input that is a regular file, of any extension, that file. Each such
  string ends with a NUL character. When \<^verbatim>\<open>HashFile\<close> cannot read one of the files, the
  program exits with failure.
\<close>

theorem fingerprint_contributors:
  "(those (map (HashFile_text fs) (hashed_files fs inputs)) = Some texts \<longrightarrow>
      compute_newHash h fs argv inputs =
        Inr (foldl (\<lambda>hash v. hash XOR (h v + 0x9e3779b9 + push_bit 6 hash + drop_bit 2 hash)) 0
               (drop 1 argv @ texts)) \<and>
      (\<forall>t \<in> set texts. \<exists>bs. t = bs @ [NUL])) \<and>
   (those (map (HashFile_text fs) (hashed_files fs inputs)) = None \<longrightarrow>
      (\<exists>f. compute_newHash h fs argv inputs = Inl (ExitFailure (FailedToReadFile f))))"
proof (intro conjI impI ballI)
  assume a: "those (map (HashFile_text fs) (hashed_files fs inputs)) = Some texts"
  have "foldl (HashString h) 0 (drop 1 argv) = foldl (\<lambda>a v. HashCombine a (h v)) 0 (drop 1 argv)"
    by (simp add: HashString_def[abs_def])
  then show "compute_newHash h fs argv inputs =
        Inr (foldl (\<lambda>hash v. hash XOR (h v + 0x9e3779b9 + push_bit 6 hash + drop_bit 2 hash)) 0
               (drop 1 argv @ texts))"
    using hash_inputs_Some[OF a, of h] by (simp add: compute_newHash_def HashCombine_def)
  fix t assume "t \<in> set texts"
  from those_Some_set[OF a this] obtain f where "HashFile_text fs f = Some t" by auto
  then show "\<exists>bs. t = bs @ [NUL]" by (rule HashFile_text_Some)
next
  assume "those (map (HashFile_text fs) (hashed_files fs inputs)) = None"
  then show "\<exists>f. compute_newHash h fs argv inputs = Inl (ExitFailure (FailedToReadFile f))"
    by (simp add: compute_newHash_def hash_inputs_None)
qed

text \<open>
  The theorem at \<^verbatim>\<open>crunch out in\<close>, where \<^verbatim>\<open>in\<close> holds \<^verbatim>\<open>a.png\<close> and \<^verbatim>\<open>notes.txt\<close>.
\<close>

theorem fingerprint_contributors_witness:
  "those (map (HashFile_text demo_fs) (hashed_files demo_fs [''in''])) = Some [[NUL]] \<and>
   compute_newHash fnv1a demo_fs [''crunch'', ''out'', ''in''] [''in''] = Inr 11192035037562279858"
  using fingerprint_contributors [of demo_fs "[''in'']" "[[NUL]]" fnv1a "[''crunch'', ''out'', ''in'']"]
  by (simp add: hashed_files_def png_entries_def demo_fs_def fs_defs path_defs HashFile_text_eq
      fnv1a_def NUL_def)

text \<open>
  C1 as the specification states it fails. With the directory \<^verbatim>\<open>in\<close> as the input, the
  code folds in the string \<^verbatim>\<open>HashFile\<close> builds for \<^verbatim>\<open>in/a.png\<close>, which is not the
  contents of the file; with the regular file \<^verbatim>\<open>in/notes.txt\<close> as the input, the code
  folds that file in although it is no \<^verbatim>\<open>.png\<close> file.
\<close>

theorem fingerprint_counterexample:
  "compute_newHash fnv1a demo_fs [''crunch'', ''out'', ''in''] [''in''] \<noteq>
     Inr (spec_fingerprint fnv1a demo_fs [''crunch'', ''out'', ''in''] [''in'']) \<and>
   compute_newHash fnv1a demo_fs [''crunch'', ''out'', ''in/notes.txt''] [''in/notes.txt''] \<noteq>
     Inr (spec_fingerprint fnv1a demo_fs [''crunch'', ''out'', ''in/notes.txt''] [''in/notes.txt''])"
  by (simp add: compute_newHash_def spec_fingerprint_def spec_png_contents_def png_entries_def
      HashFiles_def HashFile_def HashFile_text_eq HashString_def HashCombine_def
      demo_fs_def fs_defs path_defs fnv1a_def NUL_def)

subsection \<open>Option tokens that start with -p\<close>

lemma starts_with_dash_p:
  "starts_with arg ''-p'' \<Longrightarrow> \<exists>rest. arg = CHR ''-'' # CHR ''p'' # rest"
  by (cases arg; cases "tl arg") (auto simp: starts_with_def)

lemma GetPadding_valid:
  "n \<le> 16 \<Longrightarrow> GetPadding (to_string n) = Inr (int n)"
proof -
  assume "n \<le> 16"
  then have "n \<in> set [0..<17]" by simp
  then have "n \<in> {0,1,2,3,4,5,6,7,8,9,10,11,12,13,14,15,16}"
    by (simp add: upt_rec numeral_nat) 
  then show ?thesis
    by (elim insertE emptyE; simp add: GetPadding_def to_string.simps digit_char_def upt_rec)
qed

lemma GetPadding_invalid:
  "\<not> valid_padding s \<Longrightarrow> GetPadding s = Inl (ExitFailure (InvalidPadding s))"
proof -
  assume "\<not> valid_padding s"
  then have "find (\<lambda>i. s = to_string i) [0..<17] = None"
    unfolding valid_padding_def find_None_iff by auto
  then show ?thesis by (simp add: GetPadding_def)
qed

lemma parse_option_pad_suffix:
  "rest \<noteq> [] \<Longrightarrow> parse_option g (CHR ''-'' # CHR ''p'' # rest) =
     (case GetPadding rest of Inl out \<Rightarrow> Inl out | Inr n \<Rightarrow> Inr (g\<lparr>optPadding := n\<rparr>))"
  by (simp add: parse_option_def starts_with_def substr_def)

lemma to_string_nonempty: "to_string n \<noteq> []"
  by (subst to_string.simps) simp

lemma parse_option_fail_code:
  "parse_option g arg = Inl out \<Longrightarrow> exit_code out = Some 1"
  by (auto simp: parse_option_def GetPackSize_def GetPadding_def split: if_splits sum.splits option.splits)

lemma parse_options_fail_code:
  "parse_options g args = Inl (out, g') \<Longrightarrow> exit_code out = Some 1"
  by (induction args arbitrary: g) (auto split: sum.splits dest: parse_option_fail_code)

lemma parse_option_bad_pad:
  assumes "bad_pad_token arg"
  shows "parse_option g arg = Inl (ExitFailure (InvalidPadding (drop 2 arg)))"
proof -
  from assms obtain rest where a: "arg = CHR ''-'' # CHR ''p'' # rest"
    using starts_with_dash_p by (auto simp: bad_pad_token_def)
  with assms have "rest \<noteq> []" and "\<not> valid_padding rest"
    by (auto simp: bad_pad_token_def)
  then show ?thesis
    using a by (simp add: parse_option_pad_suffix GetPadding_invalid)
qed

lemma parse_options_bad_pad:
  "arg \<in> set args \<Longrightarrow> bad_pad_token arg \<Longrightarrow> \<exists>out g'. parse_options g args = Inl (out, g')"
  by (induction args arbitrary: g) (auto split: sum.splits simp: parse_option_bad_pad)

text \<open>
  C6. In the loop over the option tokens, \<^verbatim>\<open>-p\<close> alone sets \<^verbatim>\<open>optPremultiply\<close>; \<^verbatim>\<open>-p\<close>
  followed by the numeral of a value \<open>n\<close> from 0 to 16 sets \<^verbatim>\<open>optPadding\<close> to \<open>n\<close>; any
  other token that starts with \<^verbatim>\<open>-p\<close> makes \<^verbatim>\<open>GetPadding\<close> exit with failure, and a run
  whose options hold such a token ends with exit code 1. A padding value is valid when
  it is what \<^verbatim>\<open>to_string\<close> writes for one of 0, ..., 16 (so \<^verbatim>\<open>-p05\<close> is refused).
\<close>

theorem pad_and_premultiply:
  "parse_option g ''-p'' = Inr (g\<lparr>optPremultiply := True\<rparr>) \<and>
   (n \<le> 16 \<longrightarrow> parse_option g (''-p'' @ to_string n) = Inr (g\<lparr>optPadding := int n\<rparr>)) \<and>
   (bad_pad_token arg \<longrightarrow>
      parse_option g arg = Inl (ExitFailure (InvalidPadding (drop 2 arg)))) \<and>
   (arg \<in> set (drop 3 argv) \<and> bad_pad_token arg \<longrightarrow>
      (\<exists>out g' fs'. crunch_main ext oldHash0 argv g fs = Some (out, g', fs') \<and>
                     exit_code out = Some 1))"
proof (intro conjI impI)
  show "parse_option g ''-p'' = Inr (g\<lparr>optPremultiply := True\<rparr>)"
    by (simp add: parse_option_def)
next
  assume "n \<le> 16"
  then show "parse_option g (''-p'' @ to_string n) = Inr (g\<lparr>optPadding := int n\<rparr>)"
    using parse_option_pad_suffix[OF to_string_nonempty, of g n]
    by (simp add: GetPadding_valid)
next
  assume "bad_pad_token arg"
  then show "parse_option g arg = Inl (ExitFailure (InvalidPadding (drop 2 arg)))"
    by (rule parse_option_bad_pad)
next
  assume a: "arg \<in> set (drop 3 argv) \<and> bad_pad_token arg"
  then have len: "\<not> length argv < 3" by (cases "length argv < 3") auto
  from a obtain out g' where p: "parse_options (init_options g) (drop 3 argv) = Inl (out, g')"
    using parse_options_bad_pad by blast
  then have "exit_code out = Some 1" by (rule parse_options_fail_code)
  with p len show "\<exists>out g' fs'. crunch_main ext oldHash0 argv g fs = Some (out, g', fs') \<and>
                     exit_code out = Some 1"
    by (simp add: crunch_main_def Let_def)
qed

text \<open>
  The theorem at \<^verbatim>\<open>-p5\<close>, at \<^verbatim>\<open>-p17\<close>, and at the run \<^verbatim>\<open>crunch out in -p17\<close>.
\<close>

theorem pad_and_premultiply_witness:
  "parse_option initial_globals ''-p5'' = Inr (initial_globals\<lparr>optPadding := 5\<rparr>) \<and>
   bad_pad_token ''-p17'' \<and>
   parse_option initial_globals ''-p17'' = Inl (ExitFailure (InvalidPadding ''17'')) \<and>
   (\<exists>out g' fs'. crunch_main demo_ext 0 [''crunch'', ''out'', ''in'', ''-p17''] initial_globals demo_fs
        = Some (out, g', fs') \<and> exit_code out = Some 1)"
  using pad_and_premultiply [of initial_globals 5 "''-p17''" "[''crunch'', ''out'', ''in'', ''-p17'']"
      demo_ext 0 demo_fs]
  by (simp add: to_string.simps digit_char_def bad_pad_token_def starts_with_def valid_padding_def
      upt_rec)

subsection \<open>The sort before packing\<close>

lemma area_less_strict_weak_order: "strict_weak_order area_less"
  by (auto simp: strict_weak_order_def area_less_def)

lemma area_fits: "fits_int b \<Longrightarrow> area b = width b * height b"
  by (simp add: area_def fits_int_def sint_sbintrunc' signed_take_bit_int_eq_self
      flip: of_int_mult)

lemma insert_by_mset: "mset (insert_by cmp x ys) = add_mset x (mset ys)"
  by (induction ys) simp_all

lemma insert_by_set: "set (insert_by cmp x ys) = insert x (set ys)"
  by (induction ys) auto

lemma insert_by_sorted:
  assumes "strict_weak_order cmp" and "sorted_wrt (\<lambda>a b. \<not> cmp b a) ys"
  shows "sorted_wrt (\<lambda>a b. \<not> cmp b a) (insert_by cmp x ys)"
  using assms(2)
proof (induction ys)
  case Nil
  then show ?case by simp
next
  case (Cons y ys)
  from assms(1) have irr: "\<not> cmp a a" for a
    by (simp add: strict_weak_order_def)
  from assms(1) have tr: "cmp a c" if "cmp a b" "cmp b c" for a b c
    using that unfolding strict_weak_order_def by blast
  from Cons.prems have tl: "sorted_wrt (\<lambda>a b. \<not> cmp b a) ys"
    and hd: "\<forall>z \<in> set ys. \<not> cmp z y"
    by simp_all
  show ?case
  proof (cases "cmp x y")
    case True
    have 1: "\<not> cmp y x"
    proof
      assume "cmp y x"
      with True have "cmp x x" by (rule tr)
      with irr show False by blast
    qed
    have 2: "\<forall>z \<in> set ys. \<not> cmp z x"
    proof
      fix z assume z: "z \<in> set ys"
      show "\<not> cmp z x"
      proof
        assume "cmp z x"
        then have "cmp z y" using True by (rule tr)
        with hd z show False by blast
      qed
    qed
    from True 1 2 tl hd show ?thesis by simp
  next
    case False
    from Cons.IH[OF tl] False hd show ?thesis by (simp add: insert_by_set)
  qed
qed

lemma insertion_sort_contract: "sort_contract insertion_sort"
proof -
  have "mset (insertion_sort cmp xs) = mset xs" for cmp :: "bitmap \<Rightarrow> bitmap \<Rightarrow> bool" and xs
    by (induction xs) (simp_all add: insertion_sort_def insert_by_mset)
  moreover have "sorted_wrt (\<lambda>a b. \<not> cmp b a) (insertion_sort cmp xs)"
    if "strict_weak_order cmp" for cmp :: "bitmap \<Rightarrow> bitmap \<Rightarrow> bool" and xs
    using that by (induction xs) (simp_all add: insertion_sort_def insert_by_sorted)
  ultimately show ?thesis by (simp add: sort_contract_def)
qed

text \<open>
  C7. Given what the library promises of \<^verbatim>\<open>std::sort\<close>, the driver rearranges the vector
  of bitmaps into ascending order of the product \<^verbatim>\<open>width * height\<close> as the program
  computes it, in 32 bits; when the product of every bitmap is a value of \<^verbatim>\<open>int\<close>, that
  is ascending order of area. The packing loop starts from the sorted vector.
\<close>

theorem bitmaps_sorted_by_area:
  assumes "sort_contract (std_sort ext)"
  shows "sorted (map area (bitmaps (sort_bitmaps ext g))) \<and>
         mset (bitmaps (sort_bitmaps ext g)) = mset (bitmaps g) \<and>
         ((\<forall>b \<in> set (bitmaps g). fits_int b) \<longrightarrow>
            sorted (map (\<lambda>b. width b * height b) (bitmaps (sort_bitmaps ext g)))) \<and>
         pack_and_save ext outputPath newHash g fs =
           (case pack_loop ext (sort_bitmaps ext g) of
              None \<Rightarrow> None
            | Some (Some out, g') \<Rightarrow> Some (out, g', fs)
            | Some (None, g') \<Rightarrow> Some (Success, g', save_outputs ext outputPath newHash g' fs))"
proof -
  let ?ys = "std_sort ext area_less (bitmaps g)"
  from assms area_less_strict_weak_order
  have m: "mset ?ys = mset (bitmaps g)" and w: "sorted_wrt (\<lambda>a b. \<not> area_less b a) ?ys"
    by (simp_all add: sort_contract_def)
  from w have s: "sorted (map area ?ys)"
    by (simp add: sorted_map area_less_def not_less)
  have f: "sorted (map (\<lambda>b. width b * height b) ?ys)" if "\<forall>b \<in> set (bitmaps g). fits_int b"
  proof -
    from m have "set ?ys = set (bitmaps g)" by (rule mset_eq_setD)
    with that have "map area ?ys = map (\<lambda>b. width b * height b) ?ys"
      by (simp add: area_fits)
    with s show ?thesis by simp
  qed
  from m s f show ?thesis by (simp add: sort_bitmaps_def pack_and_save_def)
qed

text \<open>
  The theorem at a vector that holds an 8 by 8 bitmap before a 2 by 3 bitmap, with the
  insertion sort: both products fit, and the smaller bitmap comes first.
\<close>

theorem bitmaps_sorted_by_area_witness:
  "sort_contract (std_sort demo_ext) \<and>
   fits_int \<lparr>name = ''big'', width = 8, height = 8, pixels = []\<rparr> \<and>
   fits_int \<lparr>name = ''small'', width = 2, height = 3, pixels = []\<rparr> \<and>
   bitmaps (sort_bitmaps demo_ext (initial_globals\<lparr>bitmaps :=
      [\<lparr>name = ''big'', width = 8, height = 8, pixels = []\<rparr>,
       \<lparr>name = ''small'', width = 2, height = 3, pixels = []\<rparr>]\<rparr>)) =
      [\<lparr>name = ''small'', width = 2, height = 3, pixels = []\<rparr>,
       \<lparr>name = ''big'', width = 8, height = 8, pixels = []\<rparr>]"
proof -
  have c: "sort_contract (std_sort demo_ext)"
    by (simp add: demo_ext_def insertion_sort_contract)
  from bitmaps_sorted_by_area [OF c, of "initial_globals\<lparr>bitmaps :=
      [\<lparr>name = ''big'', width = 8, height = 8, pixels = []\<rparr>,
       \<lparr>name = ''small'', width = 2, height = 3, pixels = []\<rparr>]\<rparr>"] c
  show ?thesis
    by (simp add: sort_bitmaps_def area_less_def area_def fits_int_def initial_globals_def
        demo_ext_def insertion_sort_def)
qed

text \<open>
  A product that does not fit wraps around: 65536 times 65536 is 0 in 32 bits, so a bitmap
  of that size is sorted before a bitmap of one pixel.
\<close>

lemma area_wraps:
  "area \<lparr>name = ''huge'', width = 65536, height = 65536, pixels = []\<rparr> = 0 \<and>
   bitmaps (sort_bitmaps demo_ext (initial_globals\<lparr>bitmaps :=
      [\<lparr>name = ''tiny'', width = 1, height = 1, pixels = []\<rparr>,
       \<lparr>name = ''huge'', width = 65536, height = 65536, pixels = []\<rparr>]\<rparr>)) =
      [\<lparr>name = ''huge'', width = 65536, height = 65536, pixels = []\<rparr>,
       \<lparr>name = ''tiny'', width = 1, height = 1, pixels = []\<rparr>]"
  by (simp add: sort_bitmaps_def area_less_def area_def initial_globals_def
      demo_ext_def insertion_sort_def)

subsection \<open>The stored hash\<close>

lemma extract_no_number: "no_number cs \<Longrightarrow> extract_size_t cs hash = 0"
  by (auto simp: no_number_def extract_size_t_def Let_def split: if_splits)

text \<open>
  C8, as amended. \<^verbatim>\<open>LoadHash\<close> returns true exactly when the file opens. When it opens
  and its content holds a character that is not white space but no number (after the
  white space and an optional sign there is no digit), \<^verbatim>\<open>LoadHash\<close> returns true and
  yields 0, and the gate compares the new fingerprint with 0.
\<close>

theorem LoadHash_result:
  "fst (LoadHash fs hash file) = can_open fs file \<and>
   (can_open fs file \<and> no_number (file_bytes fs file) \<longrightarrow> LoadHash fs hash file = (True, 0)) \<and>
   (can_open fs (output_name outputPath @ ''.hash'') \<and>
    no_number (file_bytes fs (output_name outputPath @ ''.hash'')) \<longrightarrow>
      gate ext oldHash0 outputPath inputs newHash g fs =
        (if \<not> optForce g \<and> newHash = 0 then Some (Unchanged, g, fs)
         else repack ext outputPath inputs newHash g fs))"
  by (auto simp: LoadHash_def gate_def extract_no_number)

lemmas ex_defs = extract_size_t_def no_number_def is_space_def is_digit_def dec_value_def digit_val_def

text \<open>
  The theorem at a hash file that holds \<^verbatim>\<open>corrupt\<close>, and at a file that does not exist.
\<close>

theorem LoadHash_result_witness:
  "can_open (hash_fs ''corrupt'') ''out.hash'' \<and> no_number ''corrupt'' \<and>
   LoadHash (hash_fs ''corrupt'') 7 ''out.hash'' = (True, 0) \<and>
   fst (LoadHash (hash_fs ''corrupt'') 7 ''missing.hash'') = False"
  using LoadHash_result [of "hash_fs ''corrupt''" 7 "''out.hash''"]
    LoadHash_result [of "hash_fs ''corrupt''" 7 "''missing.hash''"]
  by (simp add: hash_fs_def demo_fs_def fs_defs ex_defs)

text \<open>
  C8 as stated fails at a hash file that is empty: the content is no unsigned decimal
  integer, yet \<^verbatim>\<open>ss >> hash\<close> writes nothing, and \<^verbatim>\<open>hash\<close> keeps the value it had before
  the call (here 7) instead of 0.
\<close>

theorem LoadHash_counterexample:
  "can_open (hash_fs '''') ''out.hash'' \<and> LoadHash (hash_fs '''') 7 ''out.hash'' = (True, 7)"
  by (simp add: LoadHash_def hash_fs_def demo_fs_def fs_defs ex_defs)

subsection \<open>The incremental gate\<close>


lemma parse_option_optForce_aux:
  "(case parse_option g arg of Inl out \<Rightarrow> True
    | Inr g' \<Rightarrow> optForce g' = (optForce g \<or> arg = ''-f'' \<or> arg = ''--force''))"
  by (simp add: parse_option_def split: sum.split)

lemma parse_option_optForce:
  "parse_option g arg = Inr g' \<Longrightarrow> optForce g' = (optForce g \<or> arg = ''-f'' \<or> arg = ''--force'')"
  using parse_option_optForce_aux[of g arg] by simp

lemma parse_options_optForce:
  "parse_options g args = Inr g' \<Longrightarrow>
     optForce g' = (optForce g \<or> ''-f'' \<in> set args \<or> ''--force'' \<in> set args)"
proof (induction args arbitrary: g)
  case Nil
  then show ?case by simp
next
  case (Cons a args)
  then obtain g1 where 1: "parse_option g a = Inr g1" and 2: "parse_options g1 args = Inr g'"
    by (auto split: sum.splits)
  from Cons.IH[OF 2] parse_option_optForce[OF 1] show ?case by auto
qed

text \<open>
  C4. When the options parse and hold neither \<^verbatim>\<open>-f\<close> nor \<^verbatim>\<open>--force\<close>, the fingerprint
  is computed, and \<^verbatim>\<open>LoadHash\<close> opens the hash file and yields the same value, the run
  returns \<^verbatim>\<open>EXIT_SUCCESS\<close> and the file system is as it was: nothing is deleted and
  nothing is written.
\<close>

theorem unchanged_atlas_is_a_no_op:
  assumes "3 \<le> length argv"
    and "parse_options (init_options g) (drop 3 argv) = Inr g1"
    and "''-f'' \<notin> set (drop 3 argv)" and "''--force'' \<notin> set (drop 3 argv)"
    and "compute_newHash (hasher ext) fs argv (split_on (CHR '','') (argv ! 2)) = Inr newHash"
    and "LoadHash fs oldHash0 (output_name (argv ! 1) @ ''.hash'') = (True, newHash)"
  shows "crunch_main ext oldHash0 argv g fs = Some (Unchanged, g1, fs) \<and>
         exit_code Unchanged = Some 0"
proof -
  from parse_options_optForce[OF assms(2)] assms(3,4) have "\<not> optForce g1"
    by (simp add: init_options_def)
  with assms show ?thesis
    by (simp add: crunch_main_def Let_def gate_def)
qed

lemma demo_hash:
  "compute_newHash fnv1a (hash_fs c) [''crunch'', ''out'', ''in''] [''in''] = Inr 11192035037562279858"
  by (simp add: compute_newHash_def HashFiles_def HashFile_def HashFile_text_eq HashString_def
      HashCombine_def hash_fs_def demo_fs_def fs_defs path_defs fnv1a_def NUL_def)

text \<open>
  The theorem at \<^verbatim>\<open>crunch out in\<close> with the fingerprint of that run stored in
  \<^verbatim>\<open>out.hash\<close>.
\<close>

theorem unchanged_atlas_is_a_no_op_witness:
  "crunch_main demo_ext 0 [''crunch'', ''out'', ''in''] initial_globals
       (hash_fs ''11192035037562279858'') =
     Some (Unchanged, init_options initial_globals, hash_fs ''11192035037562279858'')"
proof -
  let ?argv = "[''crunch'', ''out'', ''in'']"
  let ?fs = "hash_fs ''11192035037562279858''"
  have 1: "3 \<le> length ?argv" by simp
  have 2: "parse_options (init_options initial_globals) (drop 3 ?argv)
             = Inr (init_options initial_globals)" by simp
  have 3: "''-f'' \<notin> set (drop 3 ?argv)" and 4: "''--force'' \<notin> set (drop 3 ?argv)" by simp_all
  have 5: "compute_newHash (hasher demo_ext) ?fs ?argv (split_on (CHR '','') (?argv ! 2))
             = Inr 11192035037562279858"
    by (simp add: demo_ext_def demo_hash)
  have 6: "LoadHash ?fs 0 (output_name (?argv ! 1) @ ''.hash'') = (True, 11192035037562279858)"
    by (simp add: LoadHash_def hash_fs_def fs_defs path_defs ex_defs)
  from unchanged_atlas_is_a_no_op [OF 1 2 3 4 5 6] show ?thesis by simp
qed

subsection \<open>The packing loop\<close>

text \<open>
  After rounds that each placed a bitmap, the loop goes on from the variables reached.
\<close>

lemma rounds_pack_loop:
  "rounds ext n g = Some gn \<Longrightarrow> pack_loop ext g = pack_loop ext gn"
proof (induction n arbitrary: g)
  case 0
  then show ?case by simp
next
  case (Suc n)
  obtain pk g' where r: "pack_round ext g = (pk, g')" by (cases "pack_round ext g")
  from Suc.prems r have ne: "bitmaps g \<noteq> []" and pl: "pk_bitmaps pk \<noteq> []"
    and rest: "rounds ext n g' = Some gn"
    by (auto split: if_splits)
  have "pack_loop ext g = pack_loop ext g'"
    using ne pl r by (subst pack_loop.simps) simp
  with Suc.IH[OF rest] show ?case by simp
qed

text \<open>
  C5. When, after any number of rounds that each placed a bitmap, a round places none
  (\<^verbatim>\<open>packer->bitmaps\<close> is empty after \<^verbatim>\<open>Pack\<close>), the program reports the name of
  \<^verbatim>\<open>bitmaps.back()\<close>, the bitmap at the end of the vector that \<^verbatim>\<open>Pack\<close> left, and returns
  \<^verbatim>\<open>EXIT_FAILURE\<close>; no output is written.
\<close>

theorem packing_failure:
  assumes "rounds ext n (sort_bitmaps ext g) = Some gn"
    and "bitmaps gn \<noteq> []"
    and "pack_round ext gn = (pk, g')"
    and "pk_bitmaps pk = []"
    and "bitmaps g' \<noteq> []"
  shows "pack_and_save ext outputPath newHash g fs =
           Some (ReturnFailure (PackingFailed (name (last (bitmaps g')))), g', fs) \<and>
         exit_code (ReturnFailure (PackingFailed (name (last (bitmaps g'))))) = Some 1"
proof -
  have "pack_loop ext gn = Some (Some (ReturnFailure (PackingFailed (name (last (bitmaps g'))))), g')"
    using assms(2-5) by (subst pack_loop.simps) simp
  with rounds_pack_loop[OF assms(1)] show ?thesis
    by (simp add: pack_and_save_def)
qed

text \<open>
  The theorem at a page size of 64 and one bitmap 120 wide, which the stand-in for
  \<^verbatim>\<open>Pack\<close> does not place.
\<close>

theorem packing_failure_witness:
  "pack_and_save demo_ext ''out'' 0 wide_globals demo_fs =
     Some (ReturnFailure (PackingFailed ''/a''),
           wide_globals\<lparr>packers := [new_Packer 64 64 1]\<rparr>, demo_fs)"
proof -
  have 1: "rounds demo_ext 0 (sort_bitmaps demo_ext wide_globals) = Some wide_globals"
    by (simp add: sort_bitmaps_def wide_globals_def demo_ext_def insertion_sort_def)
  have 2: "bitmaps wide_globals \<noteq> []" by (simp add: wide_globals_def)
  have 3: "pack_round demo_ext wide_globals =
             (new_Packer 64 64 1, wide_globals\<lparr>packers := [new_Packer 64 64 1]\<rparr>)"
    by (simp add: pack_round_def demo_ext_def wide_globals_def new_Packer_def initial_globals_def)
  have 4: "pk_bitmaps (new_Packer 64 64 1) = []" by (simp add: new_Packer_def)
  have 5: "bitmaps (wide_globals\<lparr>packers := [new_Packer 64 64 1]\<rparr>) \<noteq> []"
    by (simp add: wide_globals_def)
  from packing_failure [OF 1 2 3 4 5, of "''out''" 0 demo_fs] show ?thesis
    by (simp add: wide_globals_def)
qed

subsection \<open>Numerals\<close>

text \<open>
  \<^verbatim>\<open>to_string\<close> is injective: the digits give the number back.
\<close>

lemma digit_val_digit_char: "d < 10 \<Longrightarrow> digit_val (digit_char d) = d"
proof -
  assume "d < 10"
  then have "d \<in> {0,1,2,3,4,5,6,7,8,9}" by auto
  then show ?thesis
    by (elim insertE emptyE; simp add: digit_val_def digit_char_def)
qed

lemma dec_value_snoc: "dec_value (ds @ [c]) = 10 * dec_value ds + digit_val c"
  by (simp add: dec_value_def)

lemma dec_value_to_string: "dec_value (to_string n) = n"
proof (induction n rule: to_string.induct)
  case (1 n)
  show ?case
  proof (cases "n < 10")
    case True
    then show ?thesis
      by (subst to_string.simps) (simp add: dec_value_def digit_val_digit_char)
  next
    case False
    with 1 have "dec_value (to_string (n div 10)) = n div 10" by simp
    with False show ?thesis
      by (subst to_string.simps) (simp add: dec_value_snoc digit_val_digit_char)
  qed
qed

lemma to_string_inj: "to_string m = to_string n \<Longrightarrow> m = n"
  by (metis dec_value_to_string)

lemma page_file_inj: "page_file n i = page_file n j \<Longrightarrow> i = j"
  by (simp add: page_file_def to_string_inj)

lemma page_file_not_manifest:
  "page_file n i \<noteq> n @ ''.hash''" "page_file n i \<noteq> n @ ''.bin''"
  "page_file n i \<noteq> n @ ''.xml''" "page_file n i \<noteq> n @ ''.json''"
proof -
  have l: "last (to_string i @ ''.png'') = CHR ''g''" by simp
  show "page_file n i \<noteq> n @ ''.hash''"
    using l by (auto simp: page_file_def dest: arg_cong[where f = last])
  show "page_file n i \<noteq> n @ ''.bin''"
    using l by (auto simp: page_file_def dest: arg_cong[where f = last])
  show "page_file n i \<noteq> n @ ''.xml''"
    using l by (auto simp: page_file_def dest: arg_cong[where f = last])
  show "page_file n i \<noteq> n @ ''.json''"
    using l by (auto simp: page_file_def dest: arg_cong[where f = last])
qed

subsection \<open>Which files a run touches\<close>

lemma RemoveFile_other: "p \<noteq> q \<Longrightarrow> RemoveFile fs q p = fs p"
  by (simp add: RemoveFile_def split: option.splits fsnode.splits)

lemma write_file_other: "p \<noteq> q \<Longrightarrow> write_file fs q bytes p = fs p"
  by (simp add: write_file_def)

lemma write_file_same: "write_file fs q bytes q = Some (RegFile True bytes)"
  by (simp add: write_file_def)

lemma remove_pages_other:
  "\<forall>i \<in> set is. p \<noteq> page_file n i \<Longrightarrow>
     foldl (\<lambda>fs' i. RemoveFile fs' (page_file n i)) fs is p = fs p"
  by (induction "is" arbitrary: fs) (simp_all add: RemoveFile_other)

lemma remove_old_files_page:
  assumes "16 \<le> i"
  shows "remove_old_files fs n (page_file n i) = fs (page_file n i)"
proof -
  have "\<forall>j \<in> set [0..<16]. page_file n i \<noteq> page_file n j"
    using assms by (auto dest: page_file_inj)
  then show ?thesis
    unfolding remove_old_files_def
    by (simp only: remove_pages_other RemoveFile_other page_file_not_manifest
        not_False_eq_True)
qed

lemma indexed_snoc: "indexed (ps @ [p]) = indexed ps @ [(length ps, p)]"
  by (simp add: indexed_def)

lemma save_pngs_snoc:
  "save_pngs ext n (ps @ [p]) fs =
     write_file (save_pngs ext n ps fs) (page_file n (length ps)) (SavePng ext p)"
  by (simp add: save_pngs_def indexed_snoc)

lemma save_pngs_other:
  "length ps \<le> i \<Longrightarrow> save_pngs ext n ps fs (page_file n i) = fs (page_file n i)"
proof (induction ps rule: rev_induct)
  case Nil
  then show ?case by (simp add: save_pngs_def indexed_def)
next
  case (snoc p ps)
  then have "page_file n i \<noteq> page_file n (length ps)"
    by (auto dest: page_file_inj)
  with snoc show ?case by (simp add: save_pngs_snoc write_file_other)
qed

lemma save_pngs_written:
  "j < length ps \<Longrightarrow>
     save_pngs ext n ps fs (page_file n j) = Some (RegFile True (SavePng ext (ps ! j)))"
proof (induction ps rule: rev_induct)
  case Nil
  then show ?case by simp
next
  case (snoc p ps)
  show ?case
  proof (cases "j = length ps")
    case True
    then show ?thesis by (simp add: save_pngs_snoc write_file_same)
  next
    case False
    with snoc.prems have lt: "j < length ps" by simp
    from False have "page_file n j \<noteq> page_file n (length ps)"
      by (auto dest: page_file_inj)
    with snoc.IH[OF lt] lt show ?thesis
      by (simp add: save_pngs_snoc write_file_other nth_append)
  qed
qed

lemma save_outputs_page:
  "save_outputs ext outputPath newHash g fs (page_file (output_name outputPath) i) =
     save_pngs ext (output_name outputPath) (packers g) fs (page_file (output_name outputPath) i)"
  by (simp add: save_outputs_def SaveHash_def Let_def write_file_other page_file_not_manifest)

lemma pack_and_save_cases:
  assumes "pack_and_save ext outputPath newHash g fs = Some (out, g', fs')"
  shows "fs' = fs \<or> (out = Success \<and> fs' = save_outputs ext outputPath newHash g' fs)"
  using assms by (auto simp: pack_and_save_def split: option.splits prod.splits)

lemma crunch_main_cases:
  assumes "crunch_main ext oldHash argv g fs = Some (out, g', fs')"
  shows "fs' = fs \<or> fs' = remove_old_files fs (output_name (argv ! 1)) \<or>
         (out = Success \<and> (\<exists>newHash. fs' = save_outputs ext (argv ! 1) newHash g'
             (remove_old_files fs (output_name (argv ! 1)))))"
proof (cases "length argv < 3")
  case True
  with assms show ?thesis by (simp add: crunch_main_def)
next
  case False
  show ?thesis
  proof (cases "parse_options (init_options g) (drop 3 argv)")
    case (Inl a)
    with assms False show ?thesis by (cases a) (simp add: crunch_main_def Let_def)
  next
    case (Inr g1)
    show ?thesis
    proof (cases "compute_newHash (hasher ext) fs argv (split_on (CHR '','') (argv ! 2))")
      case (Inl a)
      with assms False Inr show ?thesis by (simp add: crunch_main_def Let_def)
    next
      case r: (Inr newHash)
      let ?inputs = "split_on (CHR '','') (argv ! 2)"
      from assms False Inr r
      have gt: "gate ext oldHash (argv ! 1) ?inputs newHash g1 fs = Some (out, g', fs')"
        by (simp add: crunch_main_def Let_def)
      show ?thesis
      proof (cases "gate ext oldHash (argv ! 1) ?inputs newHash g1 fs =
                      repack ext (argv ! 1) ?inputs newHash g1 fs")
        case False
        with gt have "fs' = fs"
          by (auto simp: gate_def split: prod.splits if_splits)
        then show ?thesis by simp
      next
        case True
        with gt have rp: "repack ext (argv ! 1) ?inputs newHash g1 fs = Some (out, g', fs')"
          by simp
        let ?fs1 = "remove_old_files fs (output_name (argv ! 1))"
        show ?thesis
        proof (cases "load_inputs ext ?fs1 g1 ?inputs")
          case (Inl a)
          with rp show ?thesis by (cases a) (simp add: repack_def Let_def)
        next
          case (Inr g2)
          with rp have "pack_and_save ext (argv ! 1) newHash g2 ?fs1 = Some (out, g', fs')"
            by (simp add: repack_def Let_def)
          from pack_and_save_cases[OF this] show ?thesis by blast
        qed
      qed
    qed
  qed
qed

text \<open>
  C9. The clean-up removes no page file with an index of 16 or more; the run writes one
  page file for every packer, whatever their number; and after a run (whatever its
  outcome) that leaves \<open>k\<close> packers, every page file with an index \<open>i\<close>, \<open>16 \<le> i\<close> and
  \<open>k \<le> i\<close>, is as it was before the run.
\<close>

theorem stale_pages_remain:
  "(16 \<le> i \<longrightarrow> remove_old_files fs n (page_file n i) = fs (page_file n i)) \<and>
   (j < length (packers g1) \<longrightarrow>
      save_outputs ext outputPath newHash g1 fs (page_file (output_name outputPath) j) =
        Some (RegFile True (SavePng ext (packers g1 ! j)))) \<and>
   (crunch_main ext oldHash argv g fs = Some (out, g', fs') \<and> 16 \<le> i \<and> length (packers g') \<le> i \<longrightarrow>
      fs' (page_file (output_name (argv ! 1)) i) = fs (page_file (output_name (argv ! 1)) i))"
proof (intro conjI impI)
  assume "16 \<le> i"
  then show "remove_old_files fs n (page_file n i) = fs (page_file n i)"
    by (rule remove_old_files_page)
next
  assume "j < length (packers g1)"
  then show "save_outputs ext outputPath newHash g1 fs (page_file (output_name outputPath) j) =
        Some (RegFile True (SavePng ext (packers g1 ! j)))"
    by (simp add: save_outputs_page save_pngs_written)
next
  assume a: "crunch_main ext oldHash argv g fs = Some (out, g', fs') \<and> 16 \<le> i \<and> length (packers g') \<le> i"
  then have i: "16 \<le> i" and k: "length (packers g') \<le> i" by simp_all
  from a crunch_main_cases[of ext oldHash argv g fs out g' fs']
  show "fs' (page_file (output_name (argv ! 1)) i) = fs (page_file (output_name (argv ! 1)) i)"
    by (auto simp: remove_old_files_page[OF i] save_outputs_page save_pngs_other[OF k])
qed

subsection \<open>A run on concrete inputs\<close>

lemma RemoveFile_None: "fs p = None \<Longrightarrow> RemoveFile fs q p = None"
  by (auto simp: RemoveFile_def split: option.splits fsnode.splits)

lemma remove_pages_None:
  "fs p = None \<Longrightarrow> foldl (\<lambda>fs' i. RemoveFile fs' (page_file n i)) fs is p = None"
  by (induction "is" arbitrary: fs) (simp_all add: RemoveFile_None)

lemma remove_old_files_None: "fs p = None \<Longrightarrow> remove_old_files fs n p = None"
  by (simp add: remove_old_files_def remove_pages_None RemoveFile_None)

lemma remove_old_files_other:
  assumes "\<not> starts_with p n"
  shows "remove_old_files fs n p = fs p"
proof -
  from assms have ne: "\<And>s. p \<noteq> n @ s" by (auto simp: starts_with_def)
  then have "\<forall>i \<in> set [0..<16]. p \<noteq> page_file n i" by (simp add: page_file_def)
  then show ?thesis
    unfolding remove_old_files_def
    by (simp only: remove_pages_other RemoveFile_other ne not_False_eq_True)
qed

lemma std_sort_demo:
  "std_sort demo_ext cmp [] = []" "std_sort demo_ext cmp [x] = [x]"
  by (simp_all add: demo_ext_def insertion_sort_def)

lemma demo_load:
  assumes "holds_inputs F"
  shows "load_inputs demo_ext F g [''in''] = Inr (g\<lparr>bitmaps := bitmaps g @ [bitmap_a]\<rparr>)"
  using assms
  by (simp add: holds_inputs_def LoadBitmaps_def LoadBitmap_def fs_defs path_defs starts_with_def
      erase_def demo_ext_def bitmap_a_def)

lemma demo_hash_any:
  assumes "holds_inputs F"
  shows "\<exists>newHash. compute_newHash h F argv [''in''] = Inr newHash"
  using assms
  by (simp add: holds_inputs_def compute_newHash_def HashFiles_def HashFile_def HashFile_text_eq
      fs_defs path_defs)

lemma demo_pack:
  assumes "bitmaps g = [bitmap_a]" and "optSize g = 4096" and "optPadding g = 1"
  shows "pack_loop demo_ext g = Some (None, g\<lparr>bitmaps := [], packers := packers g @ [page_a]\<rparr>)"
proof -
  have r: "pack_round demo_ext g = (page_a, g\<lparr>bitmaps := [], packers := packers g @ [page_a]\<rparr>)"
    using assms by (simp add: pack_round_def demo_ext_def new_Packer_def bitmap_a_def page_a_def)
  have "pack_loop demo_ext g = pack_loop demo_ext (g\<lparr>bitmaps := [], packers := packers g @ [page_a]\<rparr>)"
    using assms r by (subst pack_loop.simps) (simp add: page_a_def)
  also have "\<dots> = Some (None, g\<lparr>bitmaps := [], packers := packers g @ [page_a]\<rparr>)"
    by (subst pack_loop.simps) simp
  finally show ?thesis .
qed

text \<open>
  The run \<^verbatim>\<open>crunch out in -f\<close>, from variables that hold no bitmaps, on a file system that
  holds the input directory of the example.
\<close>

lemma demo_run:
  assumes F: "holds_inputs F" and g: "bitmaps g = []"
  shows "\<exists>newHash. crunch_main demo_ext h0 [''crunch'', ''out'', ''in'', ''-f''] g F =
     Some (Success, after_run g,
           save_outputs demo_ext ''out'' newHash (after_run g) (remove_old_files F ''out''))"
proof -
  let ?argv = "[''crunch'', ''out'', ''in'', ''-f'']"
  let ?g1 = "(init_options g)\<lparr>optForce := True\<rparr>"
  let ?F1 = "remove_old_files F ''out''"
  have p: "parse_options (init_options g) [''-f''] = Inr ?g1"
    by (simp add: parse_option_def)
  from demo_hash_any[OF F] obtain newHash where
    h: "compute_newHash (hasher demo_ext) F ?argv [''in''] = Inr newHash" by blast
  have F1: "holds_inputs ?F1"
    using F by (simp add: holds_inputs_def remove_old_files_other starts_with_def)
  have l: "load_inputs demo_ext ?F1 ?g1 [''in''] = Inr (?g1\<lparr>bitmaps := [bitmap_a]\<rparr>)"
    using demo_load[OF F1, of ?g1] g by (simp add: init_options_def)
  have k: "pack_loop demo_ext (sort_bitmaps demo_ext (?g1\<lparr>bitmaps := [bitmap_a]\<rparr>)) =
             Some (None, after_run g)"
    using demo_pack[of "?g1\<lparr>bitmaps := [bitmap_a]\<rparr>"]
    by (simp add: sort_bitmaps_def init_options_def after_run_def std_sort_demo)
  have "crunch_main demo_ext h0 ?argv g F =
     Some (Success, after_run g, save_outputs demo_ext ''out'' newHash (after_run g) ?F1)"
    by (simp add: crunch_main_def gate_def repack_def pack_and_save_def Let_def path_defs
        p h l k del: parse_options.simps load_inputs.simps split: prod.splits)
  then show ?thesis by blast
qed


lemma holds_inputs_demo: "holds_inputs demo_fs" "holds_inputs stale_fs"
  by (simp_all add: holds_inputs_def demo_fs_def stale_fs_def)

text \<open>
  The theorem at a run that makes one page, on a file system where an earlier run left
  \<^verbatim>\<open>out16.png\<close>: the file is still there.
\<close>

theorem stale_pages_remain_witness:
  "\<exists>out g' fs'.
     crunch_main demo_ext 0 [''crunch'', ''out'', ''in'', ''-f''] initial_globals stale_fs
       = Some (out, g', fs') \<and>
     length (packers g') = 1 \<and> fs' ''out16.png'' = Some (RegFile True ''old'')"
proof -
  let ?argv = "[''crunch'', ''out'', ''in'', ''-f'']"
  from demo_run[OF holds_inputs_demo(2), of initial_globals 0] obtain fs' where
    run: "crunch_main demo_ext 0 ?argv initial_globals stale_fs =
            Some (Success, after_run initial_globals, fs')"
    by (auto simp: initial_globals_def)
  have k: "length (packers (after_run initial_globals)) = 1"
    by (simp add: after_run_def initial_globals_def init_options_def)
  have n: "page_file (output_name (?argv ! 1)) 16 = ''out16.png''"
    by (simp add: page_file_def path_defs to_string.simps digit_char_def)
  from stale_pages_remain [where i = 16 and argv = ?argv and ext = demo_ext and oldHash = 0
      and g = initial_globals and fs = stale_fs and out = Success
      and g' = "after_run initial_globals" and fs' = fs'] run k n
  have "fs' ''out16.png'' = stale_fs ''out16.png''" by simp
  with run k show ?thesis by (simp add: stale_fs_def)
qed

subsection \<open>State shared between calls\<close>

lemma parse_option_keeps_aux:
  "(case parse_option g arg of Inl out \<Rightarrow> True
    | Inr g' \<Rightarrow> packers g' = packers g \<and> bitmaps g' = bitmaps g \<and> (optRotate g \<longrightarrow> optRotate g'))"
  by (simp add: parse_option_def split: sum.split)

lemma parse_option_keeps:
  "parse_option g arg = Inr g' \<Longrightarrow>
     packers g' = packers g \<and> bitmaps g' = bitmaps g \<and> (optRotate g \<longrightarrow> optRotate g')"
  using parse_option_keeps_aux[of g arg] by simp

lemma parse_options_keeps:
  "parse_options g args = Inr g' \<or> parse_options g args = Inl (out, g') \<Longrightarrow>
     packers g' = packers g \<and> bitmaps g' = bitmaps g \<and> (optRotate g \<longrightarrow> optRotate g')"
proof (induction args arbitrary: g)
  case Nil
  then show ?case by simp
next
  case (Cons a args)
  show ?case
  proof (cases "parse_option g a")
    case (Inl o1)
    with Cons.prems show ?thesis by simp
  next
    case (Inr g1)
    with Cons.prems have "parse_options g1 args = Inr g' \<or> parse_options g1 args = Inl (out, g')"
      by simp
    from Cons.IH[OF this] parse_option_keeps[OF Inr] show ?thesis by simp
  qed
qed

lemma LoadBitmap_keeps:
  "LoadBitmap ext fs g d p = Inr g' \<Longrightarrow>
     packers g' = packers g \<and> optRotate g' = optRotate g \<and> (\<exists>bs. bitmaps g' = bitmaps g @ bs)"
  by (auto simp: LoadBitmap_def Let_def split: option.splits if_splits)

lemma LoadBitmaps_loop_keeps:
  "LoadBitmaps_loop ext fs g root es = Inr g' \<Longrightarrow>
     packers g' = packers g \<and> optRotate g' = optRotate g \<and> (\<exists>bs. bitmaps g' = bitmaps g @ bs)"
proof (induction es arbitrary: g)
  case Nil
  then show ?case by simp
next
  case (Cons e es)
  show ?case
  proof (cases "is_regular_file fs e \<and> extension e = ''.png''")
    case True
    with Cons.prems obtain g1 where 1: "LoadBitmap ext fs g root e = Inr g1"
      and 2: "LoadBitmaps_loop ext fs g1 root es = Inr g'"
      by (auto split: sum.splits)
    from Cons.IH[OF 2] LoadBitmap_keeps[OF 1] show ?thesis by auto
  next
    case False
    with Cons show ?thesis by auto
  qed
qed

lemma LoadBitmaps_keeps:
  "LoadBitmaps ext fs g root = Inr g' \<Longrightarrow>
     packers g' = packers g \<and> optRotate g' = optRotate g \<and> (\<exists>bs. bitmaps g' = bitmaps g @ bs)"
  by (auto simp: LoadBitmaps_def split: if_splits dest: LoadBitmaps_loop_keeps LoadBitmap_keeps)

lemma load_inputs_keeps:
  "load_inputs ext fs g inputs = Inr g' \<or> load_inputs ext fs g inputs = Inl (out, g') \<Longrightarrow>
     packers g' = packers g \<and> optRotate g' = optRotate g \<and> (\<exists>bs. bitmaps g' = bitmaps g @ bs)"
proof (induction inputs arbitrary: g)
  case Nil
  then show ?case by simp
next
  case (Cons i "is")
  show ?case
  proof (cases "is_directory fs i")
    case False
    with Cons show ?thesis by simp
  next
    case True
    show ?thesis
    proof (cases "LoadBitmaps ext fs g i")
      case (Inl o1)
      with Cons.prems True show ?thesis by simp
    next
      case (Inr g1)
      with Cons.prems True
      have "load_inputs ext fs g1 is = Inr g' \<or> load_inputs ext fs g1 is = Inl (out, g')"
        by simp
      from Cons.IH[OF this] LoadBitmaps_keeps[OF Inr] show ?thesis by auto
    qed
  qed
qed

lemma pack_round_keeps:
  "pack_round ext g = (pk, g') \<Longrightarrow> packers g' = packers g @ [pk] \<and> optRotate g' = optRotate g"
  by (auto simp: pack_round_def split: prod.splits)

text \<open>
  The packing loop only appends to \<^verbatim>\<open>packers\<close> and does not write \<^verbatim>\<open>optRotate\<close>.
\<close>

lemma pack_loop_keeps:
  assumes "pack_loop ext g = Some y"
  shows "(\<exists>ps. packers (snd y) = packers g @ ps) \<and> optRotate (snd y) = optRotate g"
proof (rule pack_loop.raw_induct
    [where P = "\<lambda>ext g y. (\<exists>ps. packers (snd y) = packers g @ ps) \<and> optRotate (snd y) = optRotate g",
      OF _ assms])
  fix loop :: "externals \<Rightarrow> globals \<Rightarrow> (outcome option \<times> globals) option"
  fix ext g y
  assume IH: "\<And>ext g y. loop ext g = Some y \<Longrightarrow>
      (\<exists>ps. packers (snd y) = packers g @ ps) \<and> optRotate (snd y) = optRotate g"
  assume body: "(if bitmaps g = [] then Some (None, g)
      else (case pack_round ext g of
              (pk, g') \<Rightarrow>
                if pk_bitmaps pk = []
                then (if bitmaps g' = [] then Some (Some Undefined, g')
                      else Some (Some (ReturnFailure (PackingFailed (name (last (bitmaps g'))))), g'))
                else loop ext g')) = Some y"
  show "(\<exists>ps. packers (snd y) = packers g @ ps) \<and> optRotate (snd y) = optRotate g"
  proof (cases "bitmaps g = []")
    case True
    with body show ?thesis by auto
  next
    case False
    obtain pk g1 where r: "pack_round ext g = (pk, g1)" by (cases "pack_round ext g")
    show ?thesis
    proof (cases "pk_bitmaps pk = []")
      case True
      with body False r pack_round_keeps[OF r] show ?thesis by (auto split: if_splits)
    next
      case ne: False
      with body False r have "loop ext g1 = Some y" by simp
      from IH[OF this] pack_round_keeps[OF r] show ?thesis by auto
    qed
  qed
qed

lemma crunch_main_keeps:
  assumes "crunch_main ext oldHash argv g fs = Some (out, g', fs')"
  shows "(optRotate g \<longrightarrow> optRotate g') \<and> (\<exists>ps. packers g' = packers g @ ps)"
proof (cases "length argv < 3")
  case True
  with assms show ?thesis by (simp add: crunch_main_def)
next
  case False
  have io: "packers (init_options g) = packers g" "optRotate (init_options g) = optRotate g"
    by (simp_all add: init_options_def)
  show ?thesis
  proof (cases "parse_options (init_options g) (drop 3 argv)")
    case (Inl a)
    obtain o1 g1 where a: "a = (o1, g1)" by (cases a)
    with assms False Inl have "g' = g1" by (simp add: crunch_main_def Let_def)
    with parse_options_keeps[of "init_options g" "drop 3 argv" g' o1] Inl a io
    show ?thesis by simp
  next
    case (Inr g1)
    from parse_options_keeps[of "init_options g" "drop 3 argv" g1] Inr io
    have g1: "packers g1 = packers g" "optRotate g \<longrightarrow> optRotate g1" by simp_all
    show ?thesis
    proof (cases "compute_newHash (hasher ext) fs argv (split_on (CHR '','') (argv ! 2))")
      case (Inl a)
      with assms False Inr g1 show ?thesis by (simp add: crunch_main_def Let_def)
    next
      case r: (Inr newHash)
      let ?inputs = "split_on (CHR '','') (argv ! 2)"
      from assms False Inr r
      have gt: "gate ext oldHash (argv ! 1) ?inputs newHash g1 fs = Some (out, g', fs')"
        by (simp add: crunch_main_def Let_def)
      show ?thesis
      proof (cases "gate ext oldHash (argv ! 1) ?inputs newHash g1 fs =
                      repack ext (argv ! 1) ?inputs newHash g1 fs")
        case False
        with gt have "g' = g1"
          by (auto simp: gate_def split: prod.splits if_splits)
        with g1 show ?thesis by simp
      next
        case True
        with gt have rp: "repack ext (argv ! 1) ?inputs newHash g1 fs = Some (out, g', fs')"
          by simp
        let ?fs1 = "remove_old_files fs (output_name (argv ! 1))"
        show ?thesis
        proof (cases "load_inputs ext ?fs1 g1 ?inputs")
          case (Inl a)
          obtain o2 g2 where a: "a = (o2, g2)" by (cases a)
          with rp Inl have "g' = g2" by (simp add: repack_def Let_def)
          with load_inputs_keeps[of ext ?fs1 g1 ?inputs g' o2] Inl a g1 show ?thesis by simp
        next
          case (Inr g2)
          from load_inputs_keeps[of ext ?fs1 g1 ?inputs g2] Inr g1
          have g2: "packers g2 = packers g" "optRotate g \<longrightarrow> optRotate g2" by simp_all
          from rp Inr have ps: "pack_and_save ext (argv ! 1) newHash g2 ?fs1 = Some (out, g', fs')"
            by (simp add: repack_def Let_def)
          then obtain r where "pack_loop ext (sort_bitmaps ext g2) = Some (r, g')"
            by (auto simp: pack_and_save_def split: option.splits prod.splits)
          from pack_loop_keeps[OF this] g2 show ?thesis by (simp add: sort_bitmaps_def)
        qed
      qed
    qed
  qed
qed

text \<open>
  C10. The assignments that initialise the options leave \<^verbatim>\<open>optRotate\<close>, \<^verbatim>\<open>bitmaps\<close> and
  \<^verbatim>\<open>packers\<close> as they are and give every other option a value that does not depend on
  the variables before; loading appends to \<^verbatim>\<open>bitmaps\<close>; and a call of \<^verbatim>\<open>crunch_main\<close>
  returns with \<^verbatim>\<open>optRotate\<close> still set when it was set before, and with the packers of
  before at the front of \<^verbatim>\<open>packers\<close>. So the result of a call depends on the calls before
  it.
\<close>

theorem calls_share_state:
  "optRotate (init_options g) = optRotate g \<and>
   bitmaps (init_options g) = bitmaps g \<and>
   packers (init_options g) = packers g \<and>
   init_options g =
     (init_options h)\<lparr>optRotate := optRotate g, bitmaps := bitmaps g, packers := packers g\<rparr> \<and>
   (load_inputs ext fs g inputs = Inr g' \<longrightarrow> (\<exists>bs. bitmaps g' = bitmaps g @ bs)) \<and>
   (crunch_main ext oldHash argv g fs = Some (out, g', fs') \<longrightarrow>
      (optRotate g \<longrightarrow> optRotate g') \<and> (\<exists>ps. packers g' = packers g @ ps))"
proof (intro conjI impI)
  show "init_options g =
     (init_options h)\<lparr>optRotate := optRotate g, bitmaps := bitmaps g, packers := packers g\<rparr>"
    by (simp add: init_options_def)
next
  assume "load_inputs ext fs g inputs = Inr g'"
  with load_inputs_keeps[of ext fs g inputs g'] show "\<exists>bs. bitmaps g' = bitmaps g @ bs"
    by simp
next
  assume a: "crunch_main ext oldHash argv g fs = Some (out, g', fs')" and "optRotate g"
  with crunch_main_keeps[OF a] show "optRotate g'" by simp
next
  assume a: "crunch_main ext oldHash argv g fs = Some (out, g', fs')"
  with crunch_main_keeps[OF a] show "\<exists>ps. packers g' = packers g @ ps" by simp
qed (simp_all add: init_options_def)

text \<open>
  The theorem at two calls with the same arguments on the same file system, the second
  from the variables the first has left: the first writes one page, the second writes
  two (\<^verbatim>\<open>out1.png\<close> holds the page of the first call again).
\<close>

theorem calls_share_state_witness:
  "\<exists>g1 fs1 g2 fs2.
     crunch_main demo_ext 0 [''crunch'', ''out'', ''in'', ''-f''] initial_globals demo_fs
       = Some (Success, g1, fs1) \<and>
     crunch_main demo_ext 0 [''crunch'', ''out'', ''in'', ''-f''] g1 demo_fs
       = Some (Success, g2, fs2) \<and>
     packers g1 = [page_a] \<and> packers g2 = [page_a, page_a] \<and>
     fs1 ''out1.png'' = None \<and> fs2 ''out1.png'' = Some (RegFile True ''PNG'')"
proof -
  let ?argv = "[''crunch'', ''out'', ''in'', ''-f'']"
  let ?g1 = "after_run initial_globals"
  let ?g2 = "after_run ?g1"
  let ?F = "remove_old_files demo_fs ''out''"
  from demo_run[OF holds_inputs_demo(1), of initial_globals 0] obtain h1 where
    run1: "crunch_main demo_ext 0 ?argv initial_globals demo_fs =
             Some (Success, ?g1, save_outputs demo_ext ''out'' h1 ?g1 ?F)"
    by (auto simp: initial_globals_def)
  from demo_run[OF holds_inputs_demo(1), of ?g1 0] obtain h2 where
    run2: "crunch_main demo_ext 0 ?argv ?g1 demo_fs =
             Some (Success, ?g2, save_outputs demo_ext ''out'' h2 ?g2 ?F)"
    by (auto simp: after_run_def)
  have p1: "packers ?g1 = [page_a]" and p2: "packers ?g2 = [page_a, page_a]"
    by (simp_all add: after_run_def initial_globals_def init_options_def)
  from calls_share_state [of ?g1 initial_globals demo_ext demo_fs "[]" ?g2 0 ?argv Success
      "save_outputs demo_ext ''out'' h2 ?g2 ?F"] run2
  have grow: "\<exists>ps. packers ?g2 = packers ?g1 @ ps" by simp
  have n: "output_name ''out'' = ''out''" "page_file ''out'' (Suc 0) = ''out1.png''"
    by (simp_all add: page_file_def path_defs to_string.simps digit_char_def)
  have "demo_fs ''out1.png'' = None" by (simp add: demo_fs_def)
  then have "?F ''out1.png'' = None" by (rule remove_old_files_None)
  moreover have "save_outputs demo_ext ''out'' h1 ?g1 ?F (page_file (output_name ''out'') 1) =
      ?F (page_file (output_name ''out'') 1)"
    unfolding save_outputs_page by (rule save_pngs_other) (simp add: p1)
  ultimately have f1: "save_outputs demo_ext ''out'' h1 ?g1 ?F ''out1.png'' = None"
    by (simp add: n)
  have "save_outputs demo_ext ''out'' h2 ?g2 ?F (page_file (output_name ''out'') 1) =
          Some (RegFile True (SavePng demo_ext (packers ?g2 ! 1)))"
    unfolding save_outputs_page by (rule save_pngs_written) (simp add: p2)
  then have f2: "save_outputs demo_ext ''out'' h2 ?g2 ?F ''out1.png'' = Some (RegFile True ''PNG'')"
    by (simp add: n p2 demo_ext_def page_a_def bitmap_a_def)
  from run1 run2 p1 p2 f1 f2 grow show ?thesis by blast
qed

subsection \<open>Inputs that are single files, and the page names of the manifests\<close>

lemma remove_old_files_absent:
  assumes "\<And>s. fs (n @ s) = None"
  shows "remove_old_files fs n = fs"
proof
  fix p
  show "remove_old_files fs n p = fs p"
  proof (cases "starts_with p n")
    case True
    then have "p = n @ drop (length n) p"
      by (metis append_take_drop_id starts_with_def)
    with assms have "fs p = None" by metis
    then show ?thesis by (simp add: remove_old_files_None)
  next
    case False
    then show ?thesis by (rule remove_old_files_other)
  qed
qed

lemma demo_fs_no_outputs: "demo_fs (''out'' @ s) = None"
  by (simp add: demo_fs_def)

text \<open>
  C2 fails on the code. At \<^verbatim>\<open>crunch out in/a.png\<close>, where \<^verbatim>\<open>in/a.png\<close> is a regular
  \<^verbatim>\<open>.png\<close> file: the file is hashed, but the loop that loads the inputs calls
  \<^verbatim>\<open>LoadBitmaps\<close> for directories only, so no bitmap is loaded, although \<^verbatim>\<open>LoadBitmaps\<close>
  itself would load the file. The run packs nothing and writes only the hash file.
\<close>

theorem single_png_input_is_not_loaded:
  "is_regular_file demo_fs ''in/a.png'' \<and> extension ''in/a.png'' = ''.png'' \<and>
   hashed_files demo_fs [''in/a.png''] = [''in/a.png''] \<and>
   load_inputs demo_ext demo_fs initial_globals [''in/a.png''] = Inr initial_globals \<and>
   LoadBitmaps demo_ext demo_fs initial_globals ''in/a.png'' =
     Inr (initial_globals\<lparr>bitmaps := [\<lparr>name = [], width = 120, height = 1, pixels = ''PNG''\<rparr>]\<rparr>) \<and>
   (\<exists>newHash. crunch_main demo_ext 0 [''crunch'', ''out'', ''in/a.png''] initial_globals demo_fs =
      Some (Success, init_options initial_globals, SaveHash demo_fs newHash ''out.hash''))"
proof -
  let ?argv = "[''crunch'', ''out'', ''in/a.png'']"
  let ?g = "init_options initial_globals"
  have f: "is_regular_file demo_fs ''in/a.png''" "\<not> is_directory demo_fs ''in/a.png''"
    "extension ''in/a.png'' = ''.png''"
    by (simp_all add: demo_fs_def fs_defs path_defs)
  have hf: "hashed_files demo_fs [''in/a.png''] = [''in/a.png'']"
    using f by (simp add: hashed_files_def)
  have li: "\<And>F g. \<not> is_directory F ''in/a.png'' \<Longrightarrow> load_inputs demo_ext F g [''in/a.png''] = Inr g"
    by simp
  have lb: "LoadBitmaps demo_ext demo_fs initial_globals ''in/a.png'' =
     Inr (initial_globals\<lparr>bitmaps := [\<lparr>name = [], width = 120, height = 1, pixels = ''PNG''\<rparr>]\<rparr>)"
    by (simp add: LoadBitmaps_def LoadBitmap_def demo_fs_def fs_defs path_defs starts_with_def
        erase_def demo_ext_def initial_globals_def)
  obtain newHash where
    h: "compute_newHash (hasher demo_ext) demo_fs ?argv [''in/a.png''] = Inr newHash"
    using f by (simp add: compute_newHash_def HashFile_def HashFile_text_eq can_open_def demo_fs_def)
  have rm: "remove_old_files demo_fs ''out'' = demo_fs"
    by (rule remove_old_files_absent) (rule demo_fs_no_outputs)
  have lh: "LoadHash demo_fs 0 ''out.hash'' = (False, 0)"
    by (simp add: LoadHash_def can_open_def demo_fs_def)
  have pl: "pack_loop demo_ext (sort_bitmaps demo_ext ?g) = Some (None, ?g)"
    by (subst pack_loop.simps)
      (simp add: sort_bitmaps_def init_options_def initial_globals_def std_sort_demo)
  have so: "save_outputs demo_ext ''out'' newHash ?g demo_fs = SaveHash demo_fs newHash ''out.hash''"
    by (simp add: save_outputs_def save_pngs_def indexed_def init_options_def initial_globals_def
        path_defs)
  have "crunch_main demo_ext 0 ?argv initial_globals demo_fs =
      Some (Success, ?g, SaveHash demo_fs newHash ''out.hash'')"
    using f(2)
    by (simp add: crunch_main_def gate_def repack_def pack_and_save_def Let_def path_defs
        h rm lh pl so li del: load_inputs.simps)
  with f hf li[OF f(2)] lb show ?thesis by blast
qed

text \<open>
  C3 fails on the code. For the output \<^verbatim>\<open>bin/atlases/atlas\<close>, the binary and the XML
  manifest name page 0 \<^verbatim>\<open>bin/atlases0\<close> (\<^verbatim>\<open>relativePath + to_string(i)\<close>) and the JSON
  manifest names it \<^verbatim>\<open>atlas0\<close> (\<^verbatim>\<open>name + to_string(i)\<close>).
\<close>

theorem manifest_page_names_differ:
  "bin_page_name ''bin/atlases/atlas'' 0 = ''bin/atlases0'' \<and>
   xml_page_name ''bin/atlases/atlas'' 0 = ''bin/atlases0'' \<and>
   json_page_name ''bin/atlases/atlas'' 0 = ''atlas0'' \<and>
   xml_text demo_ext ''bin/atlases/atlas'' (after_run initial_globals) =
     ''<atlas>'' @ endl @ ''bin/atlases0'' @ ''</atlas>'' \<and>
   json_text demo_ext ''bin/atlases/atlas'' (after_run initial_globals) =
     ''{'' @ endl @ [CHR 0x09, CHR 0x22] @ ''textures'' @ [CHR 0x22] @ '':['' @ endl @
     [CHR 0x09, CHR 0x09] @ ''{'' @ endl @ ''atlas0'' @ [CHR 0x09, CHR 0x09] @ ''}'' @ endl @
     [CHR 0x09] @ '']'' @ endl @ ''}''"
  by (simp add: bin_page_name_def xml_page_name_def json_page_name_def xml_text_def json_text_def
      indexed_def after_run_def init_options_def initial_globals_def demo_ext_def path_defs
      to_string.simps digit_char_def)

end
